theory Spec2Isabelle
  imports Complex_Main
begin

section \<open>Python values, exceptions and built-ins used by flightTracker.py\<close>

text \<open>
  The functions of \<^verbatim>\<open>flightTracker.py\<close> are dynamically typed: a cell of the aircraft
  table may hold \<^verbatim>\<open>None\<close>, an \<^verbatim>\<open>int\<close>, a \<^verbatim>\<open>float\<close> or a \<^verbatim>\<open>str\<close>.
  A float is a binary64 value: a finite value carries its exact rational value, the signed
  zero is not distinguished (no operation of the program observes it). A string is a list
  of characters with code points below 256. Every exception the built-ins raise is a value
  of \<open>exn\<close>, and a computation that may raise returns \<open>exn + 'a\<close>.
\<close>

datatype exn = ValueError | TypeError | OverflowError | KeyError | ZeroDivisionError

datatype pyfloat = Fin rat | PInf | NInf | NaN

datatype pyval = PyNone | PyInt int | PyFloat pyfloat | PyStr string

definition bindE :: "exn + 'a \<Rightarrow> ('a \<Rightarrow> exn + 'b) \<Rightarrow> exn + 'b" where
  "bindE m f = (case m of Inl e \<Rightarrow> Inl e | Inr x \<Rightarrow> f x)"

subsection \<open>Characters and decimal digits\<close>

definition is_digit :: "char \<Rightarrow> bool" where
  "is_digit c = (48 \<le> (of_char c :: int) \<and> (of_char c :: int) \<le> 57)"

definition digit_val :: "char \<Rightarrow> int" where
  "digit_val c = of_char c - 48"

definition digit_char :: "int \<Rightarrow> char" where
  "digit_char d = char_of (48 + d)"

text \<open>White space as \<^verbatim>\<open>int()\<close> and \<^verbatim>\<open>float()\<close> skip it: tab, line feed, vertical tab,
  form feed, carriage return, space, and (in a non-ASCII string) U+0085 and U+00A0.\<close>

definition is_space :: "char \<Rightarrow> bool" where
  "is_space c = ((of_char c :: int) \<in> {9, 10, 11, 12, 13, 32, 133, 160})"

definition strip :: "string \<Rightarrow> string" where
  "strip s = rev (dropWhile is_space (rev (dropWhile is_space s)))"

definition int_of_digits :: "string \<Rightarrow> int" where
  "int_of_digits s = foldl (\<lambda>a c. 10 * a + digit_val c) 0 s"

text \<open>\<^verbatim>\<open>str(n)\<close> for an integer: the decimal digits of the magnitude, after a minus sign
  for a negative one.\<close>

function digits_of :: "int \<Rightarrow> string" where
  "digits_of n = (if n < 10 then [digit_char n] else digits_of (n div 10) @ [digit_char (n mod 10)])"
  by pat_completeness auto
termination
  by (relation "measure nat") auto

declare digits_of.simps [simp del]

definition py_str_int :: "int \<Rightarrow> string" where
  "py_str_int n = (if n < 0 then CHR ''-'' # digits_of (- n) else digits_of n)"

text \<open>\<^verbatim>\<open>s.zfill(w)\<close>: zeros on the left up to width \<open>w\<close>, after a leading sign.\<close>

definition zfill :: "nat \<Rightarrow> string \<Rightarrow> string" where
  "zfill w s =
     (if w \<le> length s then s
      else (case s of
              [] \<Rightarrow> replicate w (CHR ''0'')
            | c # r \<Rightarrow>
                if c = CHR ''+'' \<or> c = CHR ''-''
                then c # replicate (w - length s) (CHR ''0'') @ r
                else replicate (w - length s) (CHR ''0'') @ s))"

text \<open>An underscore is accepted only between two digits (by \<^verbatim>\<open>int()\<close> and \<^verbatim>\<open>float()\<close>).
  The first argument is the previous character.\<close>

fun underscores_ok :: "char \<Rightarrow> string \<Rightarrow> bool" where
  "underscores_ok prev [] = (if prev = CHR ''_'' then False else True)"
| "underscores_ok prev (c # cs) =
     (if c = CHR ''_'' then is_digit prev \<and> underscores_ok c cs
      else if prev = CHR ''_'' then is_digit c \<and> underscores_ok c cs
      else underscores_ok c cs)"

definition drop_underscores :: "string \<Rightarrow> string" where
  "drop_underscores s = filter (\<lambda>c. if c = CHR ''_'' then False else True) s"

text \<open>A leading sign: the factor and the rest.\<close>

definition split_sign :: "string \<Rightarrow> int \<times> string" where
  "split_sign s =
     (case s of
        [] \<Rightarrow> (1, [])
      | c # r \<Rightarrow> if c = CHR ''-'' then (- 1, r) else if c = CHR ''+'' then (1, r) else (1, s))"

text \<open>\<^verbatim>\<open>int(s)\<close> for a string, base 10; \<open>None\<close> is \<^verbatim>\<open>ValueError\<close>.\<close>

definition int_of_str :: "string \<Rightarrow> int option" where
  "int_of_str s =
     (let t = strip s; sg = fst (split_sign t); body = snd (split_sign t);
          ds = drop_underscores body
      in if underscores_ok (CHR 0x00) body \<and> (if ds = [] then False else True) \<and> list_all is_digit ds
         then Some (sg * int_of_digits ds) else None)"

definition py_int_str :: "string \<Rightarrow> exn + int" where
  "py_int_str s = (case int_of_str s of None \<Rightarrow> Inl ValueError | Some n \<Rightarrow> Inr n)"

subsection \<open>Binary64 rounding\<close>

definition pow2 :: "int \<Rightarrow> rat" where
  "pow2 e = (if 0 \<le> e then 2 ^ nat e else 1 / 2 ^ nat (- e))"

text \<open>The number of binary digits of a positive integer.\<close>

function bitlen :: "int \<Rightarrow> int" where
  "bitlen n = (if n \<le> 0 then 0 else 1 + bitlen (n div 2))"
  by pat_completeness auto
termination
  by (relation "measure nat") auto

declare bitlen.simps [simp del]

text \<open>The binary exponent of a positive rational: \<open>pow2 e \<le> a < pow2 (e + 1)\<close>.\<close>

definition ilog2 :: "rat \<Rightarrow> int" where
  "ilog2 a =
     (let d = bitlen (fst (quotient_of a)) - bitlen (snd (quotient_of a))
      in if pow2 d \<le> a then d else d - 1)"

definition round_half_even :: "rat \<Rightarrow> int" where
  "round_half_even x =
     (let f = \<lfloor>x\<rfloor>; r = x - of_int f
      in if r < 1 / 2 then f else if 1 / 2 < r then f + 1 else if even f then f else f + 1)"

text \<open>Round to nearest, ties to even, with 53 significant bits, the least exponent -1022
  (below it the spacing stays \<open>2 ^ -1074\<close>) and overflow to infinity when the rounded
  magnitude reaches \<open>2 ^ 1024\<close> (which needs the exponent 1023 at least).\<close>

definition round_double :: "rat \<Rightarrow> pyfloat" where
  "round_double x =
     (if x = 0 then Fin 0
      else let a = \<bar>x\<bar>; e = max (ilog2 a) (- 1022); q = pow2 (e - 52);
               m = of_int (round_half_even (a / q)) * q
           in if (if e < 1023 then False else pow2 1024 \<le> m)
              then (if x < 0 then NInf else PInf)
              else Fin (if x < 0 then - m else m))"

subsection \<open>\<^verbatim>\<open>float()\<close> and \<^verbatim>\<open>int()\<close>\<close>

text \<open>The decimal part of the grammar of \<^verbatim>\<open>float(s)\<close>, after the sign and with the
  underscores removed: digits, an optional point and digits (one digit at least), an
  optional exponent.\<close>

definition parse_exponent :: "string \<Rightarrow> int option" where
  "parse_exponent r =
     (case r of
        [] \<Rightarrow> Some 0
      | c # t \<Rightarrow>
          if c = CHR ''e'' \<or> c = CHR ''E''
          then (let ds = snd (split_sign t)
                in if (if ds = [] then False else True) \<and> list_all is_digit ds
                   then Some (fst (split_sign t) * int_of_digits ds) else None)
          else None)"

definition parse_decimal :: "string \<Rightarrow> rat option" where
  "parse_decimal s =
     (let ip = takeWhile is_digit s; r1 = dropWhile is_digit s;
          has_point = (case r1 of [] \<Rightarrow> False | c # _ \<Rightarrow> c = CHR ''.'');
          fp = (if has_point then takeWhile is_digit (tl r1) else []);
          r2 = (if has_point then dropWhile is_digit (tl r1) else r1)
      in if ip = [] \<and> fp = [] then None
         else (case parse_exponent r2 of
                 None \<Rightarrow> None
               | Some ex \<Rightarrow>
                   Some (of_int (int_of_digits (ip @ fp)) / 10 ^ length fp
                         * (if 0 \<le> ex then 10 ^ nat ex else 1 / 10 ^ nat (- ex)))))"

definition lower :: "char \<Rightarrow> char" where
  "lower c = (if 65 \<le> (of_char c :: int) \<and> (of_char c :: int) \<le> 90
              then char_of ((of_char c :: int) + 32) else c)"

definition float_of_str :: "string \<Rightarrow> pyfloat option" where
  "float_of_str s =
     (let t = strip s
      in if t = [] then None
         else if underscores_ok (CHR 0x00) t
         then (let u = drop_underscores t; sg = fst (split_sign u); body = snd (split_sign u)
               in case parse_decimal body of
                    Some v \<Rightarrow> Some (round_double (of_int sg * v))
                  | None \<Rightarrow>
                      if map lower body = ''inf'' \<or> map lower body = ''infinity''
                      then Some (if sg < 0 then NInf else PInf)
                      else if map lower body = ''nan'' then Some NaN
                      else None)
         else None)"

text \<open>\<^verbatim>\<open>float(x)\<close>: an integer too large for a float raises \<^verbatim>\<open>OverflowError\<close>.\<close>

definition py_float :: "pyval \<Rightarrow> exn + pyfloat" where
  "py_float v =
     (case v of
        PyNone \<Rightarrow> Inl TypeError
      | PyInt n \<Rightarrow> (case round_double (of_int n) of Fin r \<Rightarrow> Inr (Fin r) | _ \<Rightarrow> Inl OverflowError)
      | PyFloat f \<Rightarrow> Inr f
      | PyStr s \<Rightarrow> (case float_of_str s of None \<Rightarrow> Inl ValueError | Some f \<Rightarrow> Inr f))"

text \<open>\<^verbatim>\<open>int(f)\<close> for a float: truncation towards zero; \<^verbatim>\<open>ValueError\<close> on NaN and
  \<^verbatim>\<open>OverflowError\<close> on an infinity.\<close>

definition trunc :: "rat \<Rightarrow> int" where
  "trunc r = (if 0 \<le> r then \<lfloor>r\<rfloor> else \<lceil>r\<rceil>)"

definition py_int_float :: "pyfloat \<Rightarrow> exn + int" where
  "py_int_float f =
     (case f of
        Fin r \<Rightarrow> Inr (trunc r)
      | NaN \<Rightarrow> Inl ValueError
      | PInf \<Rightarrow> Inl OverflowError
      | NInf \<Rightarrow> Inl OverflowError)"

section \<open>Time codec\<close>

text \<open>\<^verbatim>\<open>pd.isna\<close> on a scalar: \<^verbatim>\<open>None\<close> and a NaN float.\<close>

definition isna :: "pyval \<Rightarrow> bool" where
  "isna v = (v = PyNone \<or> v = PyFloat NaN)"

text \<open>The body of the \<^verbatim>\<open>try\<close> block of \<^verbatim>\<open>hhmm_to_minutes\<close>, from the integer
  \<^verbatim>\<open>int(float(hhmm))\<close> on.\<close>

definition hhmm_split :: "int \<Rightarrow> exn + int" where
  "hhmm_split n =
     (let hhmm_str = zfill 4 (py_str_int n)
      in bindE (py_int_str (take 2 hhmm_str)) (\<lambda>hours.
         bindE (py_int_str (drop 2 hhmm_str)) (\<lambda>minutes.
           if hours < 0 \<or> hours > 23 \<or> minutes < 0 \<or> minutes > 59 then Inr 0
           else Inr (hours * 60 + minutes))))"

definition hhmm_try :: "pyval \<Rightarrow> exn + int" where
  "hhmm_try hhmm = bindE (py_float hhmm) (\<lambda>f. bindE (py_int_float f) hhmm_split)"

text \<open>\<^verbatim>\<open>hhmm_to_minutes\<close>: the guard, the \<^verbatim>\<open>try\<close> block, and
  \<^verbatim>\<open>except (ValueError, TypeError): return 0\<close>; any other exception propagates.\<close>

definition hhmm_to_minutes :: "pyval \<Rightarrow> exn + int" where
  "hhmm_to_minutes hhmm =
     (if isna hhmm \<or> hhmm = PyStr [] \<or> hhmm = PyNone then Inr 0
      else (case hhmm_try hhmm of
              Inl e \<Rightarrow> if e = ValueError \<or> e = TypeError then Inr 0 else Inl e
            | Inr m \<Rightarrow> Inr m))"

text \<open>\<^verbatim>\<open>f"{n:02d}"\<close>: at least two characters, zeros after the sign.\<close>

definition fmt02d :: "int \<Rightarrow> string" where
  "fmt02d n = zfill 2 (py_str_int n)"

subsection \<open>Numbers: comparison and arithmetic of \<^verbatim>\<open>int\<close> and \<^verbatim>\<open>float\<close>\<close>

text \<open>The exact value of a number, for comparisons (Python compares an \<^verbatim>\<open>int\<close> with a
  \<^verbatim>\<open>float\<close> exactly); \<open>None\<close> for a value that is not a number.\<close>

definition num_val :: "pyval \<Rightarrow> pyfloat option" where
  "num_val v = (case v of PyInt n \<Rightarrow> Some (Fin (of_int n)) | PyFloat f \<Rightarrow> Some f | _ \<Rightarrow> None)"

fun fl_less :: "pyfloat \<Rightarrow> pyfloat \<Rightarrow> bool" where
  "fl_less NaN _ = False"
| "fl_less _ NaN = False"
| "fl_less (Fin a) (Fin b) = (a < b)"
| "fl_less (Fin a) PInf = True"
| "fl_less (Fin a) NInf = False"
| "fl_less PInf _ = False"
| "fl_less NInf NInf = False"
| "fl_less NInf _ = True"

fun fl_le :: "pyfloat \<Rightarrow> pyfloat \<Rightarrow> bool" where
  "fl_le NaN _ = False"
| "fl_le _ NaN = False"
| "fl_le (Fin a) (Fin b) = (a \<le> b)"
| "fl_le (Fin a) PInf = True"
| "fl_le (Fin a) NInf = False"
| "fl_le PInf PInf = True"
| "fl_le PInf _ = False"
| "fl_le NInf _ = True"

text \<open>\<^verbatim>\<open>a <= b\<close>, \<^verbatim>\<open>a < b\<close>, \<^verbatim>\<open>a > b\<close> where \<open>b\<close> is a number: \<^verbatim>\<open>TypeError\<close> when
  \<open>a\<close> is a string or \<^verbatim>\<open>None\<close>.\<close>

definition py_le :: "pyval \<Rightarrow> pyval \<Rightarrow> exn + bool" where
  "py_le a b = (case (num_val a, num_val b) of (Some x, Some y) \<Rightarrow> Inr (fl_le x y) | _ \<Rightarrow> Inl TypeError)"

definition py_lt :: "pyval \<Rightarrow> pyval \<Rightarrow> exn + bool" where
  "py_lt a b = (case (num_val a, num_val b) of (Some x, Some y) \<Rightarrow> Inr (fl_less x y) | _ \<Rightarrow> Inl TypeError)"

definition py_gt :: "pyval \<Rightarrow> pyval \<Rightarrow> exn + bool" where
  "py_gt a b = py_lt b a"

text \<open>The coercion of an operand of a float operation.\<close>

definition to_float :: "pyval \<Rightarrow> exn + pyfloat" where
  "to_float v =
     (case v of
        PyInt n \<Rightarrow> (case round_double (of_int n) of Fin r \<Rightarrow> Inr (Fin r) | _ \<Rightarrow> Inl OverflowError)
      | PyFloat f \<Rightarrow> Inr f
      | _ \<Rightarrow> Inl TypeError)"

fun fneg :: "pyfloat \<Rightarrow> pyfloat" where
  "fneg (Fin a) = Fin (- a)"
| "fneg PInf = NInf"
| "fneg NInf = PInf"
| "fneg NaN = NaN"

fun fadd :: "pyfloat \<Rightarrow> pyfloat \<Rightarrow> pyfloat" where
  "fadd NaN _ = NaN"
| "fadd _ NaN = NaN"
| "fadd (Fin a) (Fin b) = round_double (a + b)"
| "fadd PInf NInf = NaN"
| "fadd NInf PInf = NaN"
| "fadd PInf _ = PInf"
| "fadd NInf _ = NInf"
| "fadd (Fin a) b = b"

definition fsub :: "pyfloat \<Rightarrow> pyfloat \<Rightarrow> pyfloat" where
  "fsub a b = fadd a (fneg b)"

definition inf_signed :: "bool \<Rightarrow> pyfloat" where
  "inf_signed negative = (if negative then NInf else PInf)"

fun fmul :: "pyfloat \<Rightarrow> pyfloat \<Rightarrow> pyfloat" where
  "fmul NaN _ = NaN"
| "fmul _ NaN = NaN"
| "fmul (Fin a) (Fin b) = round_double (a * b)"
| "fmul (Fin a) PInf = (if a = 0 then NaN else inf_signed (a < 0))"
| "fmul (Fin a) NInf = (if a = 0 then NaN else inf_signed (0 < a))"
| "fmul PInf (Fin b) = (if b = 0 then NaN else inf_signed (b < 0))"
| "fmul NInf (Fin b) = (if b = 0 then NaN else inf_signed (0 < b))"
| "fmul PInf PInf = PInf"
| "fmul PInf NInf = NInf"
| "fmul NInf PInf = NInf"
| "fmul NInf NInf = PInf"

text \<open>Division by a divisor that is not zero.\<close>

fun fdiv :: "pyfloat \<Rightarrow> pyfloat \<Rightarrow> pyfloat" where
  "fdiv NaN _ = NaN"
| "fdiv _ NaN = NaN"
| "fdiv (Fin a) (Fin b) = round_double (a / b)"
| "fdiv (Fin a) _ = Fin 0"
| "fdiv PInf (Fin b) = inf_signed (b < 0)"
| "fdiv NInf (Fin b) = inf_signed (0 < b)"
| "fdiv _ _ = NaN"

definition py_mul :: "pyval \<Rightarrow> pyval \<Rightarrow> exn + pyval" where
  "py_mul a b =
     (case (a, b) of
        (PyInt x, PyInt y) \<Rightarrow> Inr (PyInt (x * y))
      | (PyStr s, PyInt n) \<Rightarrow> Inr (PyStr (concat (replicate (nat n) s)))
      | (PyInt n, PyStr s) \<Rightarrow> Inr (PyStr (concat (replicate (nat n) s)))
      | _ \<Rightarrow> bindE (to_float a) (\<lambda>x. bindE (to_float b) (\<lambda>y. Inr (PyFloat (fmul x y)))))"

definition py_sub :: "pyval \<Rightarrow> pyval \<Rightarrow> exn + pyval" where
  "py_sub a b =
     (case (a, b) of
        (PyInt x, PyInt y) \<Rightarrow> Inr (PyInt (x - y))
      | _ \<Rightarrow> bindE (to_float a) (\<lambda>x. bindE (to_float b) (\<lambda>y. Inr (PyFloat (fsub x y)))))"

text \<open>True division \<^verbatim>\<open>a / b\<close>: of two integers, the correctly rounded quotient.\<close>

definition py_truediv :: "pyval \<Rightarrow> pyval \<Rightarrow> exn + pyval" where
  "py_truediv a b =
     (case (a, b) of
        (PyInt x, PyInt y) \<Rightarrow>
          if y = 0 then Inl ZeroDivisionError
          else (case round_double (of_int x / of_int y) of
                  Fin r \<Rightarrow> Inr (PyFloat (Fin r))
                | _ \<Rightarrow> Inl OverflowError)
      | _ \<Rightarrow> bindE (to_float a) (\<lambda>x. bindE (to_float b) (\<lambda>y.
               if y = Fin 0 then Inl ZeroDivisionError else Inr (PyFloat (fdiv x y)))))"

text \<open>\<^verbatim>\<open>max(a, b)\<close> keeps \<open>a\<close> unless \<^verbatim>\<open>b > a\<close>; \<^verbatim>\<open>min(a, b)\<close> keeps \<open>a\<close> unless
  \<^verbatim>\<open>b < a\<close>.\<close>

definition py_max :: "pyval \<Rightarrow> pyval \<Rightarrow> exn + pyval" where
  "py_max a b = bindE (py_gt b a) (\<lambda>g. Inr (if g then b else a))"

definition py_min :: "pyval \<Rightarrow> pyval \<Rightarrow> exn + pyval" where
  "py_min a b = bindE (py_lt b a) (\<lambda>l. Inr (if l then b else a))"

text \<open>\<^verbatim>\<open>int(x)\<close> of a number.\<close>

definition py_int_num :: "pyval \<Rightarrow> exn + int" where
  "py_int_num v =
     (case v of
        PyInt n \<Rightarrow> Inr n
      | PyFloat f \<Rightarrow> py_int_float f
      | PyStr s \<Rightarrow> py_int_str s
      | PyNone \<Rightarrow> Inl TypeError)"

text \<open>\<^verbatim>\<open>minutes_to_hhmm\<close>.\<close>

definition minutes_to_hhmm :: "pyval \<Rightarrow> exn + string" where
  "minutes_to_hhmm total_minutes =
     bindE (py_le total_minutes (PyInt 0)) (\<lambda>nonpos.
       if nonpos then Inr ''0000''
       else bindE (py_int_num total_minutes) (\<lambda>total.
         let hours = total div 60; minutes = total mod 60;
             hours' = (if hours \<ge> 24 then hours mod 24 else hours)
         in Inr (fmt02d hours' @ fmt02d minutes)))"

section \<open>FDP limit resolver\<close>

text \<open>\<^verbatim>\<open>calculate_fdp_limits\<close> on the text of a check-in field; the bare \<^verbatim>\<open>except\<close>
  returns 9 on any failure. \<open>hours\<close> is the integer read from the first two characters,
  and the bands compare it with 500, 759, 800, 1259, 1300 and 1659, as the source does.\<close>

definition calculate_fdp_limits :: "string \<Rightarrow> int \<Rightarrow> int" where
  "calculate_fdp_limits start_time_hhmm segments =
     (case py_int_str (take 2 (zfill 4 start_time_hhmm)) of
        Inl e \<Rightarrow> 9
      | Inr hours \<Rightarrow>
          if 500 \<le> hours \<and> hours \<le> 759 then (if segments \<le> 2 then 14 else 13)
          else if 800 \<le> hours \<and> hours \<le> 1259 then (if segments \<le> 2 then 13 else 12)
          else if 1300 \<le> hours \<and> hours \<le> 1659 then (if segments \<le> 2 then 12 else 11)
          else (if segments \<le> 2 then 11 else 10))"

section \<open>Duty status evaluator\<close>

text \<open>A row of the aircraft table is a dictionary from column names to cells;
  \<^verbatim>\<open>row[k]\<close> raises \<^verbatim>\<open>KeyError\<close> when the column is missing.\<close>

type_synonym row = "string \<rightharpoonup> pyval"

definition row_get :: "row \<Rightarrow> string \<Rightarrow> exn + pyval" where
  "row_get r k = (case r k of None \<Rightarrow> Inl KeyError | Some v \<Rightarrow> Inr v)"

record progress =
  progress_percent :: pyval
  remaining_hhmm :: string
  elapsed_hhmm :: pyval
  max_hhmm :: string
  color :: string
  status :: string

text \<open>The local variables \<^verbatim>\<open>max_minutes\<close>, \<^verbatim>\<open>elapsed_minutes\<close>,
  \<^verbatim>\<open>remaining_minutes\<close> and \<^verbatim>\<open>progress_percent\<close> of
  \<^verbatim>\<open>calculate_progress_data\<close>, in the order the source computes them.\<close>

definition duty_values :: "pyval \<Rightarrow> pyval \<Rightarrow> exn + (pyval \<times> int \<times> pyval \<times> pyval)" where
  "duty_values max_time elapsed =
     bindE (py_mul max_time (PyInt 60)) (\<lambda>max_minutes.
     bindE (hhmm_to_minutes elapsed) (\<lambda>elapsed_minutes.
     bindE (py_sub max_minutes (PyInt elapsed_minutes)) (\<lambda>diff.
     bindE (py_max (PyInt 0) diff) (\<lambda>remaining_minutes.
     bindE (py_gt max_minutes (PyInt 0)) (\<lambda>positive.
     bindE (if positive
            then bindE (py_truediv (PyInt elapsed_minutes) max_minutes) (\<lambda>q.
                 bindE (py_mul q (PyInt 100)) (\<lambda>p. py_min (PyInt 100) p))
            else Inr (PyInt 0)) (\<lambda>percent.
       Inr (max_minutes, elapsed_minutes, remaining_minutes, percent)))))))"

text \<open>The colour and the status tier, from \<^verbatim>\<open>remaining_minutes\<close>.\<close>

definition duty_status :: "pyval \<Rightarrow> exn + (string \<times> string)" where
  "duty_status remaining_minutes =
     bindE (py_le remaining_minutes (PyInt 60)) (\<lambda>c.
       if c then Inr (''#e74c3c'', ''critical'')
       else bindE (py_le remaining_minutes (PyInt 120)) (\<lambda>w.
         if w then Inr (''#f39c12'', ''warning'') else Inr (''#2ecc71'', ''ok'')))"

definition max_column :: "string \<Rightarrow> string" where
  "max_column crew_type =
     (if crew_type = ''CA'' then ''CA Max FDP (hours)''
      else if crew_type = ''FO'' then ''FO Max FDP (hours)''
      else ''Cabin Max FDP (hours)'')"

definition elapsed_column :: "string \<Rightarrow> string" where
  "elapsed_column crew_type =
     (if crew_type = ''CA'' then ''CA Elapsed FDP (HHMM)''
      else if crew_type = ''FO'' then ''FO Elapsed FDP (HHMM)''
      else ''Cabin Elapsed FDP (HHMM)'')"

text \<open>The \<^verbatim>\<open>try\<close> block of \<^verbatim>\<open>calculate_progress_data\<close>.\<close>

definition progress_try :: "row \<Rightarrow> string \<Rightarrow> exn + progress" where
  "progress_try r crew_type =
     bindE (row_get r (max_column crew_type)) (\<lambda>max_time.
     bindE (row_get r (elapsed_column crew_type)) (\<lambda>elapsed.
     bindE (duty_values max_time elapsed) (\<lambda>(max_minutes, elapsed_minutes, remaining_minutes, percent).
     bindE (duty_status remaining_minutes) (\<lambda>(col, st).
     bindE (minutes_to_hhmm remaining_minutes) (\<lambda>remaining.
     bindE (minutes_to_hhmm max_minutes) (\<lambda>mx.
       Inr \<lparr>progress_percent = percent, remaining_hhmm = remaining, elapsed_hhmm = elapsed,
            max_hhmm = mx, color = col, status = st\<rparr>))))))"

text \<open>The dictionary of the \<^verbatim>\<open>except Exception\<close> branch.\<close>

definition error_progress :: progress where
  "error_progress =
     \<lparr>progress_percent = PyInt 0, remaining_hhmm = ''0000'', elapsed_hhmm = PyStr ''0000'',
      max_hhmm = ''0000'', color = ''#95a5a6'', status = ''error''\<rparr>"

definition calculate_progress_data :: "row \<Rightarrow> string \<Rightarrow> progress" where
  "calculate_progress_data r crew_type =
     (case progress_try r crew_type of Inl e \<Rightarrow> error_progress | Inr p \<Rightarrow> p)"

section \<open>Aircraft aggregator\<close>

text \<open>\<^verbatim>\<open>create_progress_bar\<close> and \<^verbatim>\<open>create_aircraft_card\<close> return HTML text made of a
  fixed template and interpolated values. A bar and a card are modelled by the interpolated
  values, in the order of the template; an emoji is the list of its UTF-8 bytes.\<close>

record bar =
  crew_class :: string
  crew_emoji :: string
  crew_name :: string
  bar_label :: string
  bar_width :: pyval
  bar_color :: string
  bar_elapsed :: pyval
  bar_max :: string
  bar_remaining :: string

definition create_progress_bar :: "progress \<Rightarrow> string \<Rightarrow> string \<Rightarrow> bar" where
  "create_progress_bar progress_data crew_type label =
     (let crew_info =
            (if crew_type = ''CA''
             then (''Captain'',
                   [CHR 0xF0, CHR 0x9F, CHR 0x91, CHR 0xA8, CHR 0xE2, CHR 0x80, CHR 0x8D,
                    CHR 0xE2, CHR 0x9C, CHR 0x88, CHR 0xEF, CHR 0xB8, CHR 0x8F], ''ca-bar'')
             else if crew_type = ''FO''
             then (''First Officer'',
                   [CHR 0xF0, CHR 0x9F, CHR 0x91, CHR 0xA9, CHR 0xE2, CHR 0x80, CHR 0x8D,
                    CHR 0xE2, CHR 0x9C, CHR 0x88, CHR 0xEF, CHR 0xB8, CHR 0x8F], ''fo-bar'')
             else if crew_type = ''Cabin''
             then (''Cabin Crew'',
                   [CHR 0xF0, CHR 0x9F, CHR 0x91, CHR 0xA8, CHR 0xE2, CHR 0x80, CHR 0x8D,
                    CHR 0xF0, CHR 0x9F, CHR 0x92, CHR 0xBC], ''cabin-bar'')
             else (crew_type, [CHR 0xF0, CHR 0x9F, CHR 0x91, CHR 0xA4], []))
      in \<lparr>crew_class = snd (snd crew_info), crew_emoji = fst (snd crew_info),
          crew_name = fst crew_info, bar_label = label,
          bar_width = progress_percent progress_data, bar_color = color progress_data,
          bar_elapsed = elapsed_hhmm progress_data, bar_max = max_hhmm progress_data,
          bar_remaining = remaining_hhmm progress_data\<rparr>)"

record card =
  card_class :: string
  status_emoji :: string
  card_tail :: pyval
  card_remaining :: string
  progress_bars :: "bar list"

text \<open>The overall status of \<^verbatim>\<open>create_aircraft_card\<close>: the card class and the emoji, from
  the statuses of the roles.\<close>

definition overall_status :: "string list \<Rightarrow> string \<times> string" where
  "overall_status statuses =
     (if ''critical'' \<in> set statuses
      then (''critical-card'', [CHR 0xF0, CHR 0x9F, CHR 0x9A, CHR 0xA8])
      else if ''warning'' \<in> set statuses
      then (''warning-card'', [CHR 0xE2, CHR 0x9A, CHR 0xA0, CHR 0xEF, CHR 0xB8, CHR 0x8F])
      else (''aircraft-card'', [CHR 0xE2, CHR 0x9C, CHR 0x85]))"

text \<open>\<^verbatim>\<open>aircraft_data\<close> is a dictionary in insertion order: an association list.
  \<^verbatim>\<open>aircraft_data['CA']\<close> raises \<^verbatim>\<open>KeyError\<close> when there is no such key.\<close>

definition create_aircraft_card :: "pyval \<Rightarrow> (string \<times> progress) list \<Rightarrow> exn + card" where
  "create_aircraft_card tail_number aircraft_data =
     (let statuses = map (\<lambda>(crew_type, data). status data) aircraft_data;
          bars = map (\<lambda>(crew_type, progress_data).
                   create_progress_bar progress_data crew_type (remaining_hhmm progress_data))
                   aircraft_data
      in case map_of aircraft_data ''CA'' of
           None \<Rightarrow> Inl KeyError
         | Some ca \<Rightarrow>
             Inr \<lparr>card_class = fst (overall_status statuses),
                  status_emoji = snd (overall_status statuses),
                  card_tail = tail_number, card_remaining = remaining_hhmm ca,
                  progress_bars = bars\<rparr>)"

section \<open>Fleet summary: the loops of \<^verbatim>\<open>main\<close>\<close>

text \<open>The three evaluations every loop of \<^verbatim>\<open>main\<close> computes for a row:
  \<^verbatim>\<open>[ca_data, fo_data, cabin_data]\<close>.\<close>

definition role_data :: "row \<Rightarrow> progress list" where
  "role_data aircraft =
     [calculate_progress_data aircraft ''CA'', calculate_progress_data aircraft ''FO'',
      calculate_progress_data aircraft ''Cabin'']"

definition any_status :: "string \<Rightarrow> progress list \<Rightarrow> bool" where
  "any_status s ds = list_ex (\<lambda>data. status data = s) ds"

text \<open>The statistics loop of the sidebar, with its two counters.\<close>

fun count_alerts :: "row list \<Rightarrow> nat \<times> nat \<Rightarrow> nat \<times> nat" where
  "count_alerts [] (critical_count, warning_count) = (critical_count, warning_count)"
| "count_alerts (aircraft # rest) (critical_count, warning_count) =
     (if any_status ''critical'' (role_data aircraft)
      then count_alerts rest (critical_count + 1, warning_count)
      else if any_status ''warning'' (role_data aircraft)
      then count_alerts rest (critical_count, warning_count + 1)
      else count_alerts rest (critical_count, warning_count))"

text \<open>The statistics block runs only when the table is not empty; it reports
  \<^verbatim>\<open>total_aircraft\<close>, \<^verbatim>\<open>critical_count\<close> and \<^verbatim>\<open>warning_count\<close>.\<close>

definition statistics :: "row list \<Rightarrow> (nat \<times> nat \<times> nat) option" where
  "statistics table =
     (if table = [] then None
      else Some (length table, fst (count_alerts table (0, 0)), snd (count_alerts table (0, 0))))"

text \<open>The alert loop of the second column, with its two lists of tail numbers; it runs
  only when the table is not empty.\<close>

fun collect_alerts :: "row list \<Rightarrow> pyval list \<times> pyval list \<Rightarrow> exn + (pyval list \<times> pyval list)" where
  "collect_alerts [] (critical_aircraft, warning_aircraft) = Inr (critical_aircraft, warning_aircraft)"
| "collect_alerts (aircraft # rest) (critical_aircraft, warning_aircraft) =
     bindE (row_get aircraft ''Tail Number'') (\<lambda>tail_number.
       if any_status ''critical'' (role_data aircraft)
       then collect_alerts rest (critical_aircraft @ [tail_number], warning_aircraft)
       else if any_status ''warning'' (role_data aircraft)
       then collect_alerts rest (critical_aircraft, warning_aircraft @ [tail_number])
       else collect_alerts rest (critical_aircraft, warning_aircraft))"

definition alert_summary :: "row list \<Rightarrow> (exn + (pyval list \<times> pyval list)) option" where
  "alert_summary table = (if table = [] then None else Some (collect_alerts table ([], [])))"

text \<open>The dashboard loop: one card for each row.\<close>

definition aircraft_card :: "row \<Rightarrow> exn + card" where
  "aircraft_card aircraft =
     bindE (row_get aircraft ''Tail Number'') (\<lambda>tail_number.
       create_aircraft_card tail_number
         [(''CA'', calculate_progress_data aircraft ''CA''),
          (''FO'', calculate_progress_data aircraft ''FO''),
          (''Cabin'', calculate_progress_data aircraft ''Cabin'')])"

section \<open>Sample data\<close>

definition sample_row :: row where
  "sample_row =
     [''Tail Number'' \<mapsto> PyStr ''N456BB'',
      ''CA Max FDP (hours)'' \<mapsto> PyInt 13, ''CA Elapsed FDP (HHMM)'' \<mapsto> PyStr ''1130'',
      ''FO Max FDP (hours)'' \<mapsto> PyInt 14, ''FO Elapsed FDP (HHMM)'' \<mapsto> PyStr ''0830'',
      ''Cabin Max FDP (hours)'' \<mapsto> PyInt 14, ''Cabin Elapsed FDP (HHMM)'' \<mapsto> PyStr ''1330'']"

definition warning_row :: row where
  "warning_row =
     [''Tail Number'' \<mapsto> PyStr ''N123AA'',
      ''CA Max FDP (hours)'' \<mapsto> PyInt 13, ''CA Elapsed FDP (HHMM)'' \<mapsto> PyStr ''1130'',
      ''FO Max FDP (hours)'' \<mapsto> PyInt 13, ''FO Elapsed FDP (HHMM)'' \<mapsto> PyStr ''0430'',
      ''Cabin Max FDP (hours)'' \<mapsto> PyInt 14, ''Cabin Elapsed FDP (HHMM)'' \<mapsto> PyStr ''0500'']"

definition error_row :: row where
  "error_row =
     [''Tail Number'' \<mapsto> PyStr ''N789CC'',
      ''CA Max FDP (hours)'' \<mapsto> PyStr ''abc'', ''CA Elapsed FDP (HHMM)'' \<mapsto> PyStr ''0230'',
      ''FO Max FDP (hours)'' \<mapsto> PyInt 12, ''FO Elapsed FDP (HHMM)'' \<mapsto> PyStr ''0230'',
      ''Cabin Max FDP (hours)'' \<mapsto> PyInt 13, ''Cabin Elapsed FDP (HHMM)'' \<mapsto> PyStr ''0300'']"

text \<open>The severity order of the specification, with the tier \<^verbatim>\<open>error\<close> where the source
  puts it: below \<^verbatim>\<open>warning\<close>, with \<^verbatim>\<open>ok\<close>.\<close>

definition severity :: "string \<Rightarrow> nat" where
  "severity s = (if s = ''critical'' then 2 else if s = ''warning'' then 1 else 0)"

definition class_severity :: "string \<Rightarrow> nat" where
  "class_severity c = (if c = ''critical-card'' then 2 else if c = ''warning-card'' then 1 else 0)"

text \<open>The aggregate status of a row, as the card of the row shows it.\<close>

definition aggregate_class :: "row \<Rightarrow> string" where
  "aggregate_class aircraft = fst (overall_status (map status (role_data aircraft)))"

text \<open>The tail numbers of the rows of a table whose aggregate status is \<open>cls\<close>, in the
  order of the table.\<close>

definition tails_of_class :: "string \<Rightarrow> row list \<Rightarrow> pyval list \<Rightarrow> pyval list" where
  "tails_of_class cls table tails =
     map snd (filter (\<lambda>(aircraft, tail). aggregate_class aircraft = cls) (zip table tails))"

section \<open>Time codec: the decoding in the words of the specification\<close>


section \<open>Properties\<close>

lemma bindE_Inr: "bindE (Inr x) f = f x"
  by (simp add: bindE_def)

lemma bindE_Inl: "bindE (Inl e) f = Inl e"
  by (simp add: bindE_def)

lemma bindE_eq_Inr: "bindE m f = Inr y \<longleftrightarrow> (\<exists>x. m = Inr x \<and> f x = Inr y)"
  by (cases m) (simp_all add: bindE_def)

lemma duty_status_int: "duty_status (PyInt n) =
     Inr (if n \<le> 60 then (''#e74c3c'', ''critical'')
          else if n \<le> 120 then (''#f39c12'', ''warning'') else (''#2ecc71'', ''ok''))"
  by (simp add: duty_status_def py_le_def num_val_def bindE_def)

lemma duty_status_fin: "duty_status (PyFloat (Fin r)) =
     Inr (if r \<le> 60 then (''#e74c3c'', ''critical'')
          else if r \<le> 120 then (''#f39c12'', ''warning'') else (''#2ecc71'', ''ok''))"
  by (simp add: duty_status_def py_le_def num_val_def bindE_def)

lemma duty_status_inf: "duty_status (PyFloat PInf) = Inr (''#2ecc71'', ''ok'')"
  by (simp add: duty_status_def py_le_def num_val_def bindE_def)

lemma py_max0_cases:
  assumes "py_max (PyInt 0) d = Inr rem"
  shows "(\<exists>n. rem = PyInt n \<and> 0 \<le> n) \<or> (\<exists>r. rem = PyFloat (Fin r) \<and> 0 < r) \<or> rem = PyFloat PInf"
proof (cases d)
  case PyNone
  with assms show ?thesis by (simp add: py_max_def py_gt_def py_lt_def num_val_def bindE_def)
next
  case (PyInt n)
  with assms show ?thesis
    by (auto simp: py_max_def py_gt_def py_lt_def num_val_def bindE_def split: if_splits)
next
  case (PyFloat f)
  with assms show ?thesis
    by (cases f) (auto simp: py_max_def py_gt_def py_lt_def num_val_def bindE_def split: if_splits)
next
  case (PyStr s)
  with assms show ?thesis by (simp add: py_max_def py_gt_def py_lt_def num_val_def bindE_def)
qed

lemma duty_values_remaining:
  assumes "duty_values max_time elapsed = Inr (mm, em, rem, pct)"
  shows "(\<exists>n. rem = PyInt n \<and> 0 \<le> n) \<or> (\<exists>r. rem = PyFloat (Fin r) \<and> 0 < r) \<or> rem = PyFloat PInf"
proof -
  from assms obtain d where "py_max (PyInt 0) d = Inr rem"
    unfolding duty_values_def bindE_eq_Inr by auto
  then show ?thesis by (rule py_max0_cases)
qed

lemma progress_try_status:
  assumes "progress_try r c = Inr p"
  shows "\<exists>max_time elapsed mm em rem pct.
           r (max_column c) = Some max_time \<and> r (elapsed_column c) = Some elapsed \<and>
           duty_values max_time elapsed = Inr (mm, em, rem, pct) \<and>
           duty_status rem = Inr (color p, status p) \<and> progress_percent p = pct \<and>
           minutes_to_hhmm rem = Inr (remaining_hhmm p) \<and>
           minutes_to_hhmm mm = Inr (max_hhmm p) \<and> elapsed_hhmm p = elapsed"
  using assms
  by (auto simp: progress_try_def bindE_eq_Inr row_get_def split: option.splits prod.splits)

text \<open>
  Claim C1. The band table of the FDP limit resolver: check-in hours 05:00-07:59 give 14 (13
  over two segments), 08:00-12:59 give 13/12, 13:00-16:59 give 12/11, all other hours 11/10.
  The source compares the two-digit hour with the four-digit bounds 500..759, 800..1259 and
  1300..1659, so no band but the last is ever taken: at every band edge the result is 11
  (10 over two segments).
\<close>

theorem calculate_fdp_limits_at_band_edges:
  "calculate_fdp_limits ''0500'' 2 = 11 \<and> calculate_fdp_limits ''0759'' 2 = 11 \<and>
   calculate_fdp_limits ''0800'' 2 = 11 \<and> calculate_fdp_limits ''1259'' 2 = 11 \<and>
   calculate_fdp_limits ''1300'' 2 = 11 \<and> calculate_fdp_limits ''1659'' 2 = 11 \<and>
   calculate_fdp_limits ''0459'' 2 = 11 \<and> calculate_fdp_limits ''1700'' 2 = 11 \<and>
   calculate_fdp_limits ''0500'' 3 = 10"
  by code_simp


text \<open>
  Claim C3. The status tier depends on the remaining minutes alone, with inclusive upper
  bounds: at most 60 is critical, above 60 and at most 120 is warning, above 120 is the
  normal tier (named \<^verbatim>\<open>ok\<close> in the source). Every remaining value the evaluator produces
  is a non-negative integer, a positive finite float or plus infinity, and the status of a
  successful evaluation is the tier of its remaining value.
\<close>

theorem duty_status_thresholds:
  "duty_status (PyInt n) =
     Inr (if n \<le> 60 then (''#e74c3c'', ''critical'')
          else if n \<le> 120 then (''#f39c12'', ''warning'') else (''#2ecc71'', ''ok'')) \<and>
   duty_status (PyFloat (Fin x)) =
     Inr (if x \<le> 60 then (''#e74c3c'', ''critical'')
          else if x \<le> 120 then (''#f39c12'', ''warning'') else (''#2ecc71'', ''ok'')) \<and>
   duty_status (PyFloat PInf) = Inr (''#2ecc71'', ''ok'') \<and>
   (duty_values max_time elapsed = Inr (mm, em, rem, pct) \<longrightarrow>
      (\<exists>k. rem = PyInt k \<and> 0 \<le> k) \<or> (\<exists>q. rem = PyFloat (Fin q) \<and> 0 < q) \<or>
      rem = PyFloat PInf) \<and>
   (progress_try r c = Inr p \<longrightarrow>
      (\<exists>mt el mm' em' rem' pct'.
          r (max_column c) = Some mt \<and> r (elapsed_column c) = Some el \<and>
          duty_values mt el = Inr (mm', em', rem', pct') \<and>
          duty_status rem' = Inr (color p, status p)))"
proof -
  have "progress_try r c = Inr p \<longrightarrow>
      (\<exists>mt el mm' em' rem' pct'.
          r (max_column c) = Some mt \<and> r (elapsed_column c) = Some el \<and>
          duty_values mt el = Inr (mm', em', rem', pct') \<and>
          duty_status rem' = Inr (color p, status p))"
    using progress_try_status [of r c p] by blast
  moreover have "duty_values max_time elapsed = Inr (mm, em, rem, pct) \<longrightarrow>
      (\<exists>k. rem = PyInt k \<and> 0 \<le> k) \<or> (\<exists>q. rem = PyFloat (Fin q) \<and> 0 < q) \<or>
      rem = PyFloat PInf"
    using duty_values_remaining [of max_time elapsed mm em rem pct] by blast
  ultimately show ?thesis
    using duty_status_int [of n] duty_status_fin [of x] duty_status_inf by blast
qed

lemma sample_row_CA:
  "progress_try sample_row ''CA'' =
     Inr \<lparr>progress_percent = PyFloat (Fin (778115921195323 / 8796093022208)),
          remaining_hhmm = ''0130'', elapsed_hhmm = PyStr ''1130'', max_hhmm = ''1300'',
          color = ''#f39c12'', status = ''warning''\<rparr>"
  unfolding sample_row_def by code_simp

lemma sample_values_CA:
  "duty_values (PyInt 13) (PyStr ''1130'') =
     Inr (PyInt 780, 690, PyInt 90, PyFloat (Fin (778115921195323 / 8796093022208)))"
  by code_simp

theorem duty_status_thresholds_witness:
  "duty_status (PyInt 60) = Inr (''#e74c3c'', ''critical'') \<and>
   duty_status (PyInt 61) = Inr (''#f39c12'', ''warning'') \<and>
   duty_status (PyInt 120) = Inr (''#f39c12'', ''warning'') \<and>
   duty_status (PyInt 121) = Inr (''#2ecc71'', ''ok'') \<and>
   duty_status (PyFloat (Fin (241 / 2))) = Inr (''#2ecc71'', ''ok'') \<and>
   duty_values (PyInt 13) (PyStr ''1130'') =
     Inr (PyInt 780, 690, PyInt 90, PyFloat (Fin (778115921195323 / 8796093022208))) \<and>
   (\<exists>k. PyInt 90 = PyInt k \<and> 0 \<le> k) \<and>
   (\<exists>mt el mm' em' rem' pct'.
       sample_row (max_column ''CA'') = Some mt \<and> sample_row (elapsed_column ''CA'') = Some el \<and>
       duty_values mt el = Inr (mm', em', rem', pct') \<and>
       duty_status rem' = Inr (''#f39c12'', ''warning''))"
proof -
  note t = duty_status_thresholds
  have a: "duty_status (PyInt 60) = Inr (''#e74c3c'', ''critical'')"
    using t [where n = 60] by simp
  have b: "duty_status (PyInt 61) = Inr (''#f39c12'', ''warning'')"
    using t [where n = 61] by simp
  have c: "duty_status (PyInt 120) = Inr (''#f39c12'', ''warning'')"
    using t [where n = 120] by simp
  have d: "duty_status (PyInt 121) = Inr (''#2ecc71'', ''ok'')"
    using t [where n = 121] by simp
  have e: "duty_status (PyFloat (Fin (241 / 2))) = Inr (''#2ecc71'', ''ok'')"
    using t [where x = "241 / 2"] by simp
  have f: "\<exists>mt el mm' em' rem' pct'.
       sample_row (max_column ''CA'') = Some mt \<and> sample_row (elapsed_column ''CA'') = Some el \<and>
       duty_values mt el = Inr (mm', em', rem', pct') \<and>
       duty_status rem' = Inr (''#f39c12'', ''warning'')"
    using t [where r = sample_row and c = "''CA''" and
        p = "\<lparr>progress_percent = PyFloat (Fin (778115921195323 / 8796093022208)),
          remaining_hhmm = ''0130'', elapsed_hhmm = PyStr ''1130'', max_hhmm = ''1300'',
          color = ''#f39c12'', status = ''warning''\<rparr>"] sample_row_CA
    by simp
  show ?thesis using a b c d e f sample_values_CA by simp
qed

lemma class_severity_values:
  "class_severity ''critical-card'' = 2" "class_severity ''warning-card'' = 1"
  "class_severity ''aircraft-card'' = 0"
  by (simp_all add: class_severity_def)

lemma severity_critical: "severity ''critical'' = 2"
  by (simp add: severity_def)

lemma severity_warning: "severity ''warning'' = 1"
  by (simp add: severity_def)

lemma severity_le_2: "severity s \<le> 2"
  by (simp add: severity_def)

lemma severity_le_1: "''critical'' \<noteq> s \<Longrightarrow> severity s \<le> 1"
  by (auto simp: severity_def)

lemma severity_0: "''critical'' \<noteq> s \<Longrightarrow> ''warning'' \<noteq> s \<Longrightarrow> severity s = 0"
  by (auto simp: severity_def)

lemma overall_status_critical:
  "''critical'' \<in> set ss \<Longrightarrow> fst (overall_status ss) = ''critical-card''"
  by (simp add: overall_status_def)

lemma overall_status_warning:
  "''critical'' \<notin> set ss \<Longrightarrow> ''warning'' \<in> set ss \<Longrightarrow> fst (overall_status ss) = ''warning-card''"
  by (simp add: overall_status_def)

lemma overall_status_normal:
  "''critical'' \<notin> set ss \<Longrightarrow> ''warning'' \<notin> set ss \<Longrightarrow> fst (overall_status ss) = ''aircraft-card''"
  by (simp add: overall_status_def)

lemma card_class_neq: "''warning-card'' \<noteq> ''critical-card''" "''aircraft-card'' \<noteq> ''critical-card''"
  "''aircraft-card'' \<noteq> ''warning-card''"
  by simp_all

lemma overall_status_severity:
  "class_severity (fst (overall_status [a, b, c])) = max (severity a) (max (severity b) (severity c))"
proof -
  consider (crit) "''critical'' \<in> set [a, b, c]"
    | (warn) "''critical'' \<notin> set [a, b, c]" "''warning'' \<in> set [a, b, c]"
    | (norm) "''critical'' \<notin> set [a, b, c]" "''warning'' \<notin> set [a, b, c]"
    by blast
  then show ?thesis
  proof cases
    case crit
    then have "severity a = 2 \<or> severity b = 2 \<or> severity c = 2"
      using severity_critical by auto
    then have "max (severity a) (max (severity b) (severity c)) = 2"
      using severity_le_2 [of a] severity_le_2 [of b] severity_le_2 [of c] by linarith
    then show ?thesis
      using overall_status_critical [OF crit] class_severity_values(1) by simp
  next
    case warn
    from warn(1) have "''critical'' \<noteq> a" "''critical'' \<noteq> b" "''critical'' \<noteq> c"
      by auto
    then have le: "severity a \<le> 1" "severity b \<le> 1" "severity c \<le> 1"
      by (blast intro: severity_le_1)+
    from warn(2) have "severity a = 1 \<or> severity b = 1 \<or> severity c = 1"
      using severity_warning by auto
    with le have "max (severity a) (max (severity b) (severity c)) = 1"
      by linarith
    then show ?thesis
      using overall_status_warning [OF warn] class_severity_values(2) by simp
  next
    case norm
    then have "''critical'' \<noteq> a" "''critical'' \<noteq> b" "''critical'' \<noteq> c"
      "''warning'' \<noteq> a" "''warning'' \<noteq> b" "''warning'' \<noteq> c"
      by auto
    then have "severity a = 0" "severity b = 0" "severity c = 0"
      by (blast intro: severity_0)+
    then show ?thesis
      using overall_status_normal [OF norm] class_severity_values(3) by simp
  qed
qed

lemma overall_status_critical_iff:
  "fst (overall_status ss) = ''critical-card'' \<longleftrightarrow> ''critical'' \<in> set ss"
  using overall_status_critical [of ss] overall_status_warning [of ss]
    overall_status_normal [of ss] card_class_neq by metis

lemma create_aircraft_card_three:
  "create_aircraft_card t [(''CA'', ca), (''FO'', fo), (''Cabin'', cabin)] =
     Inr \<lparr>card_class = fst (overall_status [status ca, status fo, status cabin]),
          status_emoji = snd (overall_status [status ca, status fo, status cabin]),
          card_tail = t, card_remaining = remaining_hhmm ca,
          progress_bars =
            [create_progress_bar ca ''CA'' (remaining_hhmm ca),
             create_progress_bar fo ''FO'' (remaining_hhmm fo),
             create_progress_bar cabin ''Cabin'' (remaining_hhmm cabin)]\<rparr>"
  by (simp add: create_aircraft_card_def Let_def)
lemma any_status_set: "any_status s ds \<longleftrightarrow> s \<in> set (map status ds)"
  by (auto simp: any_status_def list_ex_iff)

lemma error_row_statuses:
  "map status (role_data error_row) = [''error'', ''ok'', ''ok'']"
  unfolding error_row_def by code_simp

lemma error_row_tail: "row_get error_row ''Tail Number'' = Inr (PyStr ''N789CC'')"
  by (simp add: error_row_def row_get_def)

text \<open>
  Claim C2 as stated fails: an aircraft whose captain evaluation is \<^verbatim>\<open>error\<close> (the cell
  of its maximum is the text \<^verbatim>\<open>abc\<close>) and whose other roles are \<^verbatim>\<open>ok\<close> gets the normal
  card class, and is counted in neither the critical nor the warning alerts.
\<close>

theorem error_status_shown_as_normal:
  "map status (role_data error_row) = [''error'', ''ok'', ''ok''] \<and>
   fst (overall_status (map status (role_data error_row))) = ''aircraft-card'' \<and>
   count_alerts [error_row] (0, 0) = (0, 0) \<and>
   alert_summary [error_row] = Some (Inr ([], []))"
proof -
  have 1: "map status (role_data error_row) = [''error'', ''ok'', ''ok'']"
    by (rule error_row_statuses)
  have 2: "fst (overall_status [''error'', ''ok'', ''ok'']) = ''aircraft-card''"
    by (simp add: overall_status_def)
  have 3: "count_alerts [error_row] (0, 0) = (0, 0)"
    by (simp add: any_status_set 1)
  have 4: "alert_summary [error_row] = Some (Inr ([], []))"
    by (simp add: alert_summary_def any_status_set 1 error_row_tail bindE_Inr)
  show ?thesis using 1 2 3 4 by simp
qed
lemma sample_row_remaining:
  "map remaining_hhmm (role_data sample_row) = [''0130'', ''0530'', ''0030'']"
  unfolding sample_row_def by code_simp

lemma sample_row_tail: "row_get sample_row ''Tail Number'' = Inr (PyStr ''N456BB'')"
  by (simp add: sample_row_def row_get_def)

lemma create_aircraft_card_remaining:
  assumes "map_of aircraft_data ''CA'' = Some ca"
  shows "\<exists>c. create_aircraft_card t aircraft_data = Inr c \<and> card_remaining c = remaining_hhmm ca"
  using assms by (simp add: create_aircraft_card_def Let_def)

lemma aircraft_card_remaining:
  assumes "aircraft_card r = Inr c"
  shows "card_remaining c = remaining_hhmm (calculate_progress_data r ''CA'')"
proof -
  from assms obtain t where
    "create_aircraft_card t
       [(''CA'', calculate_progress_data r ''CA''), (''FO'', calculate_progress_data r ''FO''),
        (''Cabin'', calculate_progress_data r ''Cabin'')] = Inr c"
    by (auto simp: aircraft_card_def bindE_eq_Inr)
  then show ?thesis
    by (auto simp: create_aircraft_card_three)
qed

text \<open>
  Claim C9. The remaining time in the headline of an aircraft card is the captain's
  \<^verbatim>\<open>remaining_hhmm\<close>, whatever the other roles have left; the dashboard loop builds every
  card that way.
\<close>

theorem headline_is_captain_remaining:
  "(map_of aircraft_data ''CA'' = Some ca \<longrightarrow>
     (\<exists>c. create_aircraft_card t aircraft_data = Inr c \<and> card_remaining c = remaining_hhmm ca)) \<and>
   (aircraft_card r = Inr c' \<longrightarrow>
      card_remaining c' = remaining_hhmm (calculate_progress_data r ''CA''))"
  using create_aircraft_card_remaining [of aircraft_data ca t] aircraft_card_remaining [of r c']
  by blast

theorem headline_is_captain_remaining_witness:
  "(\<exists>c. aircraft_card sample_row = Inr c \<and> card_remaining c = ''0130'') \<and>
   remaining_hhmm (calculate_progress_data sample_row ''CA'') = ''0130'' \<and>
   remaining_hhmm (calculate_progress_data sample_row ''FO'') = ''0530'' \<and>
   remaining_hhmm (calculate_progress_data sample_row ''Cabin'') = ''0030''"
proof -
  have r: "remaining_hhmm (calculate_progress_data sample_row ''CA'') = ''0130''"
      "remaining_hhmm (calculate_progress_data sample_row ''FO'') = ''0530''"
      "remaining_hhmm (calculate_progress_data sample_row ''Cabin'') = ''0030''"
    using sample_row_remaining by (simp_all add: role_data_def)
  obtain c where c: "aircraft_card sample_row = Inr c"
    by (simp add: aircraft_card_def sample_row_tail bindE_Inr create_aircraft_card_three)
  from headline_is_captain_remaining [where r = sample_row and c' = c] c r
  have "card_remaining c = ''0130''" by simp
  with c r show ?thesis by blast
qed

lemma duty_status_values:
  assumes "duty_status rem = Inr (col, st)"
  shows "(st = ''critical'' \<and> col = ''#e74c3c'') \<or> (st = ''warning'' \<and> col = ''#f39c12'') \<or>
         (st = ''ok'' \<and> col = ''#2ecc71'')"
  using assms by (auto simp: duty_status_def bindE_eq_Inr split: if_splits)

lemma progress_try_status_values:
  assumes "progress_try r c = Inr p"
  shows "(status p = ''critical'' \<and> color p = ''#e74c3c'') \<or>
         (status p = ''warning'' \<and> color p = ''#f39c12'') \<or>
         (status p = ''ok'' \<and> color p = ''#2ecc71'')"
proof -
  from progress_try_status [OF assms] obtain rem where "duty_status rem = Inr (color p, status p)"
    by blast
  then show ?thesis by (rule duty_status_values)
qed

lemma py_sub_str: "py_sub (PyStr s) (PyInt n) = Inl TypeError"
  by (simp add: py_sub_def to_float_def bindE_def)

lemma duty_values_str: "\<exists>e. duty_values (PyStr s) elapsed = Inl e"
proof (cases "hhmm_to_minutes elapsed")
  case (Inl e)
  then show ?thesis by (simp add: duty_values_def py_mul_def bindE_def)
next
  case (Inr m)
  then show ?thesis by (simp add: duty_values_def py_mul_def bindE_def py_sub_str)
qed

lemma progress_try_str:
  assumes "r (max_column c) = Some (PyStr s)"
  shows "\<exists>e. progress_try r c = Inl e"
proof (cases "r (elapsed_column c)")
  case None
  with assms show ?thesis by (simp add: progress_try_def row_get_def bindE_def)
next
  case (Some el)
  obtain e where "duty_values (PyStr s) el = Inl e" using duty_values_str by blast
  with assms Some show ?thesis by (simp add: progress_try_def row_get_def bindE_def)
qed

lemma progress_try_missing:
  assumes "r (max_column c) = None"
  shows "progress_try r c = Inl KeyError"
  using assms by (simp add: progress_try_def row_get_def bindE_def)
lemma status_values_not_error:
  assumes "(st = ''critical'' \<and> col = ''#e74c3c'') \<or> (st = ''warning'' \<and> col = ''#f39c12'') \<or>
         (st = ''ok'' \<and> col = ''#2ecc71'')"
  shows "st \<noteq> ''error'' \<and> col \<noteq> ''#95a5a6''"
  using assms by auto

text \<open>
  Claim C8. \<^verbatim>\<open>calculate_progress_data\<close> returns a dictionary for every row and crew
  type: whatever the \<^verbatim>\<open>try\<close> block raises is replaced by the dictionary of the
  \<^verbatim>\<open>except\<close> branch, whose status is \<^verbatim>\<open>error\<close>, whose percentage is 0, whose time
  fields are \<^verbatim>\<open>0000\<close> and whose colour is used by no other tier. A maximum that is a
  text, or a missing column, ends there. A table of N rows therefore gets three
  evaluations for each of its N rows.
\<close>

theorem evaluation_failures_absorbed:
  "(progress_try r c = Inl e \<longrightarrow> calculate_progress_data r c = error_progress) \<and>
   (progress_try r c = Inr p \<longrightarrow>
      calculate_progress_data r c = p \<and> status p \<noteq> ''error'' \<and> color p \<noteq> ''#95a5a6'') \<and>
   (r (max_column c) = Some (PyStr s) \<longrightarrow> calculate_progress_data r c = error_progress) \<and>
   (r (max_column c) = None \<longrightarrow> calculate_progress_data r c = error_progress) \<and>
   error_progress =
     \<lparr>progress_percent = PyInt 0, remaining_hhmm = ''0000'', elapsed_hhmm = PyStr ''0000'',
      max_hhmm = ''0000'', color = ''#95a5a6'', status = ''error''\<rparr> \<and>
   length (map role_data table) = length table \<and>
   (\<forall>aircraft \<in> set table. length (role_data aircraft) = 3)"
proof -
  have a: "progress_try r c = Inl e \<longrightarrow> calculate_progress_data r c = error_progress"
    by (simp add: calculate_progress_data_def)
  have b: "progress_try r c = Inr p \<longrightarrow>
      calculate_progress_data r c = p \<and> status p \<noteq> ''error'' \<and> color p \<noteq> ''#95a5a6''"
  proof
    assume ok: "progress_try r c = Inr p"
    from status_values_not_error [OF progress_try_status_values [OF ok]] ok
    show "calculate_progress_data r c = p \<and> status p \<noteq> ''error'' \<and> color p \<noteq> ''#95a5a6''"
      by (simp add: calculate_progress_data_def)
  qed
  have c: "r (max_column c) = Some (PyStr s) \<longrightarrow> calculate_progress_data r c = error_progress"
    using progress_try_str [of r c s] by (auto simp: calculate_progress_data_def)
  have d: "r (max_column c) = None \<longrightarrow> calculate_progress_data r c = error_progress"
    using progress_try_missing [of r c] by (auto simp: calculate_progress_data_def)
  have e: "\<forall>aircraft \<in> set table. length (role_data aircraft) = 3"
    by (simp add: role_data_def)
  show ?thesis using a b c d e by (simp add: error_progress_def)
qed

theorem evaluation_failures_absorbed_witness:
  "calculate_progress_data error_row ''CA'' = error_progress \<and>
   status (calculate_progress_data sample_row ''CA'') = ''warning'' \<and>
   length (map role_data [sample_row, error_row]) = 2 \<and>
   length (role_data error_row) = 3"
proof -
  have m: "error_row (max_column ''CA'') = Some (PyStr ''abc'')"
    by (simp add: error_row_def max_column_def)
  note t = evaluation_failures_absorbed [where r = error_row and c = "''CA''" and s = "''abc''"
      and table = "[sample_row, error_row]"]
  have 1: "calculate_progress_data error_row ''CA'' = error_progress"
    using t m by blast
  have 2: "status (calculate_progress_data sample_row ''CA'') = ''warning''"
    using evaluation_failures_absorbed [where r = sample_row and c = "''CA''", THEN conjunct2,
        THEN conjunct1] sample_row_CA by simp
  have 3: "length (role_data error_row) = 3"
    using t by simp
  show ?thesis using 1 2 3 by simp
qed

lemma aggregate_critical_iff:
  "aggregate_class r = ''critical-card'' \<longleftrightarrow> any_status ''critical'' (role_data r)"
  by (simp add: aggregate_class_def overall_status_critical_iff any_status_set)

lemma aggregate_warning_iff:
  "aggregate_class r = ''warning-card'' \<longleftrightarrow>
     \<not> any_status ''critical'' (role_data r) \<and> any_status ''warning'' (role_data r)"
  using overall_status_critical [of "map status (role_data r)"]
    overall_status_warning [of "map status (role_data r)"]
    overall_status_normal [of "map status (role_data r)"] card_class_neq
  unfolding aggregate_class_def any_status_set by metis

lemma aggregate_class_cases:
  "aggregate_class r = ''critical-card'' \<or> aggregate_class r = ''warning-card'' \<or>
   aggregate_class r = ''aircraft-card''"
  using overall_status_critical [of "map status (role_data r)"]
    overall_status_warning [of "map status (role_data r)"]
    overall_status_normal [of "map status (role_data r)"]
  unfolding aggregate_class_def by metis

lemma count_alerts_eq:
  "count_alerts table (c, w) =
     (c + length (filter (\<lambda>r. aggregate_class r = ''critical-card'') table),
      w + length (filter (\<lambda>r. aggregate_class r = ''warning-card'') table))"
proof (induction table arbitrary: c w)
  case Nil
  show ?case by simp
next
  case (Cons r rs)
  show ?case
    using card_class_neq
    by (simp add: Cons.IH aggregate_critical_iff aggregate_warning_iff)
qed

lemma collect_alerts_eq:
  assumes "map (\<lambda>r. r ''Tail Number'') table = map Some tails"
  shows "collect_alerts table (cs, ws) =
     Inr (cs @ tails_of_class ''critical-card'' table tails,
          ws @ tails_of_class ''warning-card'' table tails)"
  using assms
proof (induction table arbitrary: tails cs ws)
  case Nil
  then show ?case by (simp add: tails_of_class_def)
next
  case (Cons r rs)
  from Cons.prems obtain t ts where ts: "tails = t # ts" "r ''Tail Number'' = Some t"
    "map (\<lambda>r. r ''Tail Number'') rs = map Some ts"
    by (cases tails) auto
  have g: "row_get r ''Tail Number'' = Inr t"
    using ts(2) by (simp add: row_get_def)
  have tl: "\<And>cls. tails_of_class cls (r # rs) (t # ts) =
      (if aggregate_class r = cls then [t] else []) @ tails_of_class cls rs ts"
    by (simp add: tails_of_class_def)
  show ?case
    using card_class_neq
    by (simp add: ts(1) g bindE_Inr Cons.IH [OF ts(3)] tl aggregate_critical_iff
        aggregate_warning_iff)
qed

lemma tails_of_class_length:
  "length tails = length table \<Longrightarrow>
   length (tails_of_class cls table tails) = length (filter (\<lambda>r. aggregate_class r = cls) table)"
proof (induction table arbitrary: tails)
  case Nil
  then show ?case by (simp add: tails_of_class_def)
next
  case (Cons r rs)
  then obtain t ts where "tails = t # ts" "length ts = length rs" by (cases tails) auto
  with Cons.IH [of ts] show ?case by (simp add: tails_of_class_def)
qed

lemma tails_of_class_disjoint:
  assumes "length tails = length table" "distinct tails" "cls \<noteq> cls'"
  shows "set (tails_of_class cls table tails) \<inter> set (tails_of_class cls' table tails) = {}"
proof -
  { fix t
    assume a: "t \<in> set (tails_of_class cls table tails)" and b: "t \<in> set (tails_of_class cls' table tails)"
    from a obtain r where r: "(r, t) \<in> set (zip table tails)" "aggregate_class r = cls"
      by (auto simp: tails_of_class_def)
    from b obtain r' where r': "(r', t) \<in> set (zip table tails)" "aggregate_class r' = cls'"
      by (auto simp: tails_of_class_def)
    from r(1) r'(1) assms(1,2) have "r = r'"
      by (metis distinct_zipI2 eq_key_imp_eq_value map_of_is_SomeI fst_conv in_set_zip
          nth_eq_iff_index_eq snd_conv)
    with r(2) r'(2) assms(3) have False by simp }
  then show ?thesis by blast
qed
lemma filter_two_classes_le:
  "length (filter (\<lambda>r. aggregate_class r = ''critical-card'') table) +
   length (filter (\<lambda>r. aggregate_class r = ''warning-card'') table) \<le> length table"
  using card_class_neq by (induction table) auto

lemma sample_row_statuses:
  "map status (role_data sample_row) = [''warning'', ''ok'', ''critical'']"
  unfolding sample_row_def by code_simp

lemma warning_row_statuses:
  "map status (role_data warning_row) = [''warning'', ''ok'', ''ok'']"
  unfolding warning_row_def by code_simp

lemma sample_rows_class:
  "aggregate_class sample_row = ''critical-card''"
  "aggregate_class warning_row = ''warning-card''"
  "aggregate_class error_row = ''aircraft-card''"
  by (simp_all add: aggregate_class_def sample_row_statuses warning_row_statuses
      error_row_statuses overall_status_def)

lemma sample_rows_tails:
  "map (\<lambda>r. r ''Tail Number'') [sample_row, warning_row, error_row] =
     map Some [PyStr ''N456BB'', PyStr ''N123AA'', PyStr ''N789CC'']"
  by (simp add: sample_row_def warning_row_def error_row_def)

text \<open>
  Claim C7, for a table that is not empty (the two blocks of \<^verbatim>\<open>main\<close> run only then).
  The statistics report the number of rows and the lengths of the two alert lists; the
  critical list holds the tail numbers of the rows whose aggregate status is critical, the
  warning list those whose aggregate status is warning, in the order of the table; every
  row has exactly one of the three aggregate statuses, so it feeds one list at most; and
  when the tail numbers are distinct the two lists share no tail number.
\<close>

theorem fleet_summary_partition:
  "map (\<lambda>r. r ''Tail Number'') table = map Some tails \<longrightarrow> table \<noteq> [] \<longrightarrow>
     statistics table =
       Some (length table, length (tails_of_class ''critical-card'' table tails),
             length (tails_of_class ''warning-card'' table tails)) \<and>
     alert_summary table =
       Some (Inr (tails_of_class ''critical-card'' table tails,
                  tails_of_class ''warning-card'' table tails)) \<and>
     (\<forall>r \<in> set table.
         aggregate_class r = ''critical-card'' \<or> aggregate_class r = ''warning-card'' \<or>
         aggregate_class r = ''aircraft-card'') \<and>
     length (tails_of_class ''critical-card'' table tails) +
       length (tails_of_class ''warning-card'' table tails) \<le> length table \<and>
     (distinct tails \<longrightarrow>
        set (tails_of_class ''critical-card'' table tails) \<inter>
        set (tails_of_class ''warning-card'' table tails) = {})"
proof (intro impI)
  assume tails: "map (\<lambda>r. r ''Tail Number'') table = map Some tails" and ne: "table \<noteq> []"
  from tails have len: "length tails = length table"
    by (metis length_map)
  note lc = tails_of_class_length [OF len, of "''critical-card''"]
  note lw = tails_of_class_length [OF len, of "''warning-card''"]
  have 1: "statistics table =
       Some (length table, length (tails_of_class ''critical-card'' table tails),
             length (tails_of_class ''warning-card'' table tails))"
    using ne by (simp add: statistics_def count_alerts_eq lc lw)
  have 2: "alert_summary table =
       Some (Inr (tails_of_class ''critical-card'' table tails,
                  tails_of_class ''warning-card'' table tails))"
    using ne collect_alerts_eq [OF tails, of "[]" "[]"] by (simp add: alert_summary_def)
  have 3: "\<forall>r \<in> set table.
         aggregate_class r = ''critical-card'' \<or> aggregate_class r = ''warning-card'' \<or>
         aggregate_class r = ''aircraft-card''"
    using aggregate_class_cases by blast
  have 4: "length (tails_of_class ''critical-card'' table tails) +
       length (tails_of_class ''warning-card'' table tails) \<le> length table"
    using filter_two_classes_le [of table] by (simp add: lc lw)
  have 5: "distinct tails \<longrightarrow>
        set (tails_of_class ''critical-card'' table tails) \<inter>
        set (tails_of_class ''warning-card'' table tails) = {}"
    using tails_of_class_disjoint [OF len, of "''critical-card''" "''warning-card''"]
      card_class_neq(1) by (metis)
  show "statistics table =
       Some (length table, length (tails_of_class ''critical-card'' table tails),
             length (tails_of_class ''warning-card'' table tails)) \<and>
     alert_summary table =
       Some (Inr (tails_of_class ''critical-card'' table tails,
                  tails_of_class ''warning-card'' table tails)) \<and>
     (\<forall>r \<in> set table.
         aggregate_class r = ''critical-card'' \<or> aggregate_class r = ''warning-card'' \<or>
         aggregate_class r = ''aircraft-card'') \<and>
     length (tails_of_class ''critical-card'' table tails) +
       length (tails_of_class ''warning-card'' table tails) \<le> length table \<and>
     (distinct tails \<longrightarrow>
        set (tails_of_class ''critical-card'' table tails) \<inter>
        set (tails_of_class ''warning-card'' table tails) = {})"
    using 1 2 3 4 5 by blast
qed

theorem fleet_summary_partition_witness:
  "map (\<lambda>r. r ''Tail Number'') [sample_row, warning_row, error_row] =
     map Some [PyStr ''N456BB'', PyStr ''N123AA'', PyStr ''N789CC''] \<and>
   statistics [sample_row, warning_row, error_row] = Some (3, 1, 1) \<and>
   alert_summary [sample_row, warning_row, error_row] =
     Some (Inr ([PyStr ''N456BB''], [PyStr ''N123AA''])) \<and>
   distinct [PyStr ''N456BB'', PyStr ''N123AA'', PyStr ''N789CC''] \<and>
   set [PyStr ''N456BB''] \<inter> set [PyStr ''N123AA''] = {}"
proof -
  have c: "tails_of_class ''critical-card'' [sample_row, warning_row, error_row]
            [PyStr ''N456BB'', PyStr ''N123AA'', PyStr ''N789CC''] = [PyStr ''N456BB'']"
    by (simp add: tails_of_class_def sample_rows_class)
  have w: "tails_of_class ''warning-card'' [sample_row, warning_row, error_row]
            [PyStr ''N456BB'', PyStr ''N123AA'', PyStr ''N789CC''] = [PyStr ''N123AA'']"
    by (simp add: tails_of_class_def sample_rows_class)
  have d: "distinct [PyStr ''N456BB'', PyStr ''N123AA'', PyStr ''N789CC'']"
    by simp
  from fleet_summary_partition [of "[sample_row, warning_row, error_row]"
      "[PyStr ''N456BB'', PyStr ''N123AA'', PyStr ''N789CC'']"] sample_rows_tails
  show ?thesis unfolding c w using d by simp
qed

text \<open>
  Claim C7 as stated, for every collection, fails on the empty table: both blocks are
  guarded by \<^verbatim>\<open>if not st.session_state.aircraft_data.empty\<close>, so no total, count or
  list is produced.
\<close>

theorem fleet_summary_empty_table:
  "statistics [] = None \<and> alert_summary [] = None"
  by (simp add: statistics_def alert_summary_def)

lemma overall_status_three:
  "(fst (overall_status [a, b, c]) = ''critical-card'' \<longleftrightarrow>
      a = ''critical'' \<or> b = ''critical'' \<or> c = ''critical'') \<and>
   (fst (overall_status [a, b, c]) = ''warning-card'' \<longleftrightarrow>
      \<not> (a = ''critical'' \<or> b = ''critical'' \<or> c = ''critical'') \<and>
      (a = ''warning'' \<or> b = ''warning'' \<or> c = ''warning'')) \<and>
   (fst (overall_status [a, b, c]) = ''aircraft-card'' \<longleftrightarrow>
      \<not> (a = ''critical'' \<or> b = ''critical'' \<or> c = ''critical'') \<and>
      \<not> (a = ''warning'' \<or> b = ''warning'' \<or> c = ''warning''))"
proof -
  have m: "''critical'' \<in> set [a, b, c] \<longleftrightarrow> a = ''critical'' \<or> b = ''critical'' \<or> c = ''critical''"
    "''warning'' \<in> set [a, b, c] \<longleftrightarrow> a = ''warning'' \<or> b = ''warning'' \<or> c = ''warning''"
    by auto
  consider (crit) "''critical'' \<in> set [a, b, c]"
    | (warn) "''critical'' \<notin> set [a, b, c]" "''warning'' \<in> set [a, b, c]"
    | (norm) "''critical'' \<notin> set [a, b, c]" "''warning'' \<notin> set [a, b, c]"
    by blast
  then show ?thesis
  proof cases
    case crit
    from overall_status_critical [OF crit] crit card_class_neq show ?thesis
      unfolding m by simp
  next
    case warn
    from overall_status_warning [OF warn] warn card_class_neq show ?thesis
      unfolding m by simp
  next
    case norm
    from overall_status_normal [OF norm] norm card_class_neq show ?thesis
      unfolding m by simp
  qed
qed

lemma aggregate_class_roles:
  "aggregate_class r =
     fst (overall_status [status (calculate_progress_data r ''CA''),
                          status (calculate_progress_data r ''FO''),
                          status (calculate_progress_data r ''Cabin'')])"
  by (simp add: aggregate_class_def role_data_def)

text \<open>
  Claim C2, as the source has it. The aggregate status of an aircraft is the greatest
  severity among its three role statuses in the order critical, warning, everything else:
  the card class is critical when a role is critical, warning when no role is critical and
  one is warning, and the normal class \<^verbatim>\<open>aircraft-card\<close> in every other case, so a role
  status \<^verbatim>\<open>error\<close> ranks with \<^verbatim>\<open>ok\<close>, below \<^verbatim>\<open>warning\<close>. The card of
  \<^verbatim>\<open>create_aircraft_card\<close> carries that class, and both loops of \<^verbatim>\<open>main\<close> count
  and list a row by the same class: a row of the normal class, with or without an
  \<^verbatim>\<open>error\<close> role, adds to neither counter and to neither list.
\<close>

theorem aggregate_status_max_severity:
  "(fst (overall_status [a, b, c]) = ''critical-card'' \<longleftrightarrow>
      a = ''critical'' \<or> b = ''critical'' \<or> c = ''critical'') \<and>
   (fst (overall_status [a, b, c]) = ''warning-card'' \<longleftrightarrow>
      \<not> (a = ''critical'' \<or> b = ''critical'' \<or> c = ''critical'') \<and>
      (a = ''warning'' \<or> b = ''warning'' \<or> c = ''warning'')) \<and>
   (fst (overall_status [a, b, c]) = ''aircraft-card'' \<longleftrightarrow>
      \<not> (a = ''critical'' \<or> b = ''critical'' \<or> c = ''critical'') \<and>
      \<not> (a = ''warning'' \<or> b = ''warning'' \<or> c = ''warning'')) \<and>
   class_severity (fst (overall_status [a, b, c])) = max (severity a) (max (severity b) (severity c)) \<and>
   create_aircraft_card t [(''CA'', ca), (''FO'', fo), (''Cabin'', cabin)] =
     Inr \<lparr>card_class = fst (overall_status [status ca, status fo, status cabin]),
          status_emoji = snd (overall_status [status ca, status fo, status cabin]),
          card_tail = t, card_remaining = remaining_hhmm ca,
          progress_bars =
            [create_progress_bar ca ''CA'' (remaining_hhmm ca),
             create_progress_bar fo ''FO'' (remaining_hhmm fo),
             create_progress_bar cabin ''Cabin'' (remaining_hhmm cabin)]\<rparr> \<and>
   aggregate_class r =
     fst (overall_status [status (calculate_progress_data r ''CA''),
                          status (calculate_progress_data r ''FO''),
                          status (calculate_progress_data r ''Cabin'')]) \<and>
   count_alerts table (n, m) =
     (n + length (filter (\<lambda>x. aggregate_class x = ''critical-card'') table),
      m + length (filter (\<lambda>x. aggregate_class x = ''warning-card'') table)) \<and>
   (map (\<lambda>x. x ''Tail Number'') table = map Some tails \<longrightarrow>
      collect_alerts table (cs, ws) =
        Inr (cs @ tails_of_class ''critical-card'' table tails,
             ws @ tails_of_class ''warning-card'' table tails))"
proof -
  have "map (\<lambda>x. x ''Tail Number'') table = map Some tails \<longrightarrow>
      collect_alerts table (cs, ws) =
        Inr (cs @ tails_of_class ''critical-card'' table tails,
             ws @ tails_of_class ''warning-card'' table tails)"
    using collect_alerts_eq [of table tails cs ws] by blast
  moreover note three = overall_status_three [of a b c]
  ultimately show ?thesis
    using three [THEN conjunct1] three [THEN conjunct2, THEN conjunct1]
      three [THEN conjunct2, THEN conjunct2] overall_status_severity [of a b c]
      create_aircraft_card_three [of t ca fo cabin] aggregate_class_roles [of r]
      count_alerts_eq [of table n m]
    by (intro conjI) assumption+
qed

theorem aggregate_status_max_severity_witness:
  "fst (overall_status [''error'', ''ok'', ''ok'']) = ''aircraft-card'' \<and>
   fst (overall_status [''error'', ''warning'', ''ok'']) = ''warning-card'' \<and>
   fst (overall_status [''critical'', ''error'', ''warning'']) = ''critical-card'' \<and>
   aggregate_class error_row = ''aircraft-card'' \<and>
   count_alerts [error_row, sample_row, warning_row] (0, 0) = (1, 1) \<and>
   map (\<lambda>x. x ''Tail Number'') [error_row, sample_row, warning_row] =
     map Some [PyStr ''N789CC'', PyStr ''N456BB'', PyStr ''N123AA''] \<and>
   collect_alerts [error_row, sample_row, warning_row] ([], []) =
     Inr ([PyStr ''N456BB''], [PyStr ''N123AA''])"
proof -
  note t = aggregate_status_max_severity
  have 1: "fst (overall_status [''error'', ''ok'', ''ok'']) = ''aircraft-card''"
    using t [where a = "''error''" and b = "''ok''" and c = "''ok''", THEN conjunct2,
        THEN conjunct2, THEN conjunct1] by simp
  have 2: "fst (overall_status [''error'', ''warning'', ''ok'']) = ''warning-card''"
    using t [where a = "''error''" and b = "''warning''" and c = "''ok''", THEN conjunct2,
        THEN conjunct1] by simp
  have 3: "fst (overall_status [''critical'', ''error'', ''warning'']) = ''critical-card''"
    using t [where a = "''critical''" and b = "''error''" and c = "''warning''", THEN conjunct1]
    by simp
  have tl: "map (\<lambda>x. x ''Tail Number'') [error_row, sample_row, warning_row] =
     map Some [PyStr ''N789CC'', PyStr ''N456BB'', PyStr ''N123AA'']"
    by (simp add: sample_row_def warning_row_def error_row_def)
  have c: "tails_of_class ''critical-card'' [error_row, sample_row, warning_row]
            [PyStr ''N789CC'', PyStr ''N456BB'', PyStr ''N123AA''] = [PyStr ''N456BB'']"
    by (simp add: tails_of_class_def sample_rows_class)
  have w: "tails_of_class ''warning-card'' [error_row, sample_row, warning_row]
            [PyStr ''N789CC'', PyStr ''N456BB'', PyStr ''N123AA''] = [PyStr ''N123AA'']"
    by (simp add: tails_of_class_def sample_rows_class)
  have 4: "count_alerts [error_row, sample_row, warning_row] (0, 0) = (1, 1)"
    using t [where table = "[error_row, sample_row, warning_row]" and n = 0 and m = 0]
    by (simp add: sample_rows_class)
  have 5: "collect_alerts [error_row, sample_row, warning_row] ([], []) =
     Inr ([PyStr ''N456BB''], [PyStr ''N123AA''])"
    using t [where table = "[error_row, sample_row, warning_row]" and cs = "[]" and ws = "[]"
        and tails = "[PyStr ''N789CC'', PyStr ''N456BB'', PyStr ''N123AA'']"] tl c w
    by simp
  show ?thesis using 1 2 3 4 5 tl sample_rows_class(3) by simp
qed

lemma is_digit_not_special:
  assumes "is_digit c"
  shows "\<not> is_space c" "c \<noteq> CHR ''_''" "c \<noteq> CHR ''-''" "c \<noteq> CHR ''+''" "c \<noteq> CHR ''.''"
    "0 \<le> digit_val c" "digit_val c \<le> 9"
  using assms by (auto simp: is_digit_def is_space_def digit_val_def)

lemma of_char_digit_char:
  assumes "0 \<le> d" "d \<le> 9"
  shows "(of_char (digit_char d) :: int) = 48 + d"
  using assms by (simp add: digit_char_def)

lemma digit_char_props:
  assumes "0 \<le> d" "d \<le> 9"
  shows "is_digit (digit_char d)" "digit_val (digit_char d) = d"
  using assms by (simp_all add: is_digit_def digit_val_def of_char_digit_char)

lemma int_of_digits_snoc: "int_of_digits (xs @ [c]) = 10 * int_of_digits xs + digit_val c"
  by (simp add: int_of_digits_def)

lemma int_of_digits_nonneg: "list_all is_digit ds \<Longrightarrow> 0 \<le> int_of_digits ds"
proof (induction ds rule: rev_induct)
  case Nil
  show ?case by (simp add: int_of_digits_def)
next
  case (snoc c ds)
  then show ?case using is_digit_not_special(6) [of c] by (simp add: int_of_digits_snoc)
qed

lemma strip_digits:
  assumes "list_all is_digit ds"
  shows "strip ds = ds"
proof (cases ds rule: rev_cases)
  case Nil
  then show ?thesis by (simp add: strip_def)
next
  case (snoc xs x)
  with assms have l: "\<not> is_space x" using is_digit_not_special(1) [of x] by simp
  show ?thesis
  proof (cases ds)
    case Nil
    with snoc show ?thesis by simp
  next
    case (Cons y ys)
    with assms have f: "\<not> is_space y" using is_digit_not_special(1) [of y] by simp
    have "dropWhile is_space ds = ds" using Cons f by simp
    moreover have "dropWhile is_space (rev ds) = rev ds" using snoc l by simp
    ultimately show ?thesis by (simp add: strip_def)
  qed
qed

lemma drop_underscores_digits: "list_all is_digit ds \<Longrightarrow> drop_underscores ds = ds"
  unfolding drop_underscores_def
  by (induction ds) (auto dest: is_digit_not_special(2))

lemma underscores_ok_digits:
  "list_all is_digit ds \<Longrightarrow> prev \<noteq> CHR ''_'' \<Longrightarrow> underscores_ok prev ds"
  by (induction ds arbitrary: prev) (auto dest: is_digit_not_special(2))

lemma split_sign_digits: "list_all is_digit ds \<Longrightarrow> split_sign ds = (1, ds)"
  by (cases ds) (auto simp: split_sign_def dest: is_digit_not_special(3,4))

lemma int_of_str_digits:
  assumes "list_all is_digit ds" "ds \<noteq> []"
  shows "int_of_str ds = Some (int_of_digits ds)"
  using assms
  by (simp add: int_of_str_def strip_digits split_sign_digits drop_underscores_digits
      underscores_ok_digits Let_def)

lemma digits_of_digits: "0 \<le> n \<Longrightarrow> list_all is_digit (digits_of n) \<and> digits_of n \<noteq> []"
proof (induction n rule: digits_of.induct)
  case (1 n)
  show ?case
  proof (cases "n < 10")
    case True
    with 1(2) show ?thesis
      by (subst digits_of.simps, subst (2) digits_of.simps) (simp add: digit_char_props(1))
  next
    case False
    with 1 have ih: "list_all is_digit (digits_of (n div 10))" by simp
    have "is_digit (digit_char (n mod 10))" by (rule digit_char_props(1)) simp_all
    with ih False show ?thesis
      by (subst digits_of.simps, subst (2) digits_of.simps) simp
  qed
qed

lemma int_of_digits_digits_of: "0 \<le> n \<Longrightarrow> int_of_digits (digits_of n) = n"
proof (induction n rule: digits_of.induct)
  case (1 n)
  show ?case
  proof (cases "n < 10")
    case True
    with 1(2) show ?thesis
      by (subst digits_of.simps) (simp add: int_of_digits_def digit_char_props(2))
  next
    case False
    with 1 have ih: "int_of_digits (digits_of (n div 10)) = n div 10" by simp
    have "digit_val (digit_char (n mod 10)) = n mod 10" by (rule digit_char_props(2)) simp_all
    with ih False show ?thesis
      by (subst digits_of.simps) (simp add: int_of_digits_snoc)
  qed
qed

lemma hhmm_split_range:
  assumes "hhmm_split n = Inr v"
  shows "0 \<le> v \<and> v \<le> 1439"
  using assms
  by (auto simp: hhmm_split_def Let_def bindE_eq_Inr split: if_splits)


lemma hhmm_to_minutes_range:
  assumes "hhmm_to_minutes x = Inr v"
  shows "0 \<le> v \<and> v \<le> 1439"
proof (cases "isna x \<or> x = PyStr [] \<or> x = PyNone")
  case True
  with assms show ?thesis by (simp add: hhmm_to_minutes_def)
next
  case False
  show ?thesis
  proof (cases "hhmm_try x")
    case (Inl e)
    with assms False show ?thesis by (simp add: hhmm_to_minutes_def split: if_splits)
  next
    case (Inr w)
    with assms False have "w = v" by (simp add: hhmm_to_minutes_def)
    with Inr obtain f k where "py_int_float f = Inr k" "hhmm_split k = Inr v"
      by (auto simp: hhmm_try_def bindE_eq_Inr)
    then show ?thesis using hhmm_split_range by blast
  qed
qed




text \<open>
  Claim C10. The decoder is meant to return an integer from 0 to 1439 for every input;
  its \<^verbatim>\<open>except (ValueError, TypeError)\<close> misses the \<^verbatim>\<open>OverflowError\<close> that
  \<^verbatim>\<open>int(float(hhmm))\<close> raises on an infinite value: the text \<^verbatim>\<open>inf\<close>, a
  float infinity, and an integer too large for a float all make it raise.
\<close>

theorem hhmm_to_minutes_raises_on_infinity:
  "hhmm_to_minutes (PyStr ''inf'') = Inl OverflowError \<and>
   hhmm_to_minutes (PyStr ''-Infinity'') = Inl OverflowError \<and>
   hhmm_to_minutes (PyFloat PInf) = Inl OverflowError"
  by code_simp

subsection \<open>Decoding of an integer, digit by digit\<close>

lemma int_of_digits_Nil: "int_of_digits [] = 0"
  by (simp add: int_of_digits_def)

lemma int_of_digits_append:
  "int_of_digits (xs @ ys) = int_of_digits xs * 10 ^ length ys + int_of_digits ys"
proof (induction ys rule: rev_induct)
  case Nil
  show ?case by (simp add: int_of_digits_Nil)
next
  case (snoc y ys)
  have "int_of_digits (xs @ ys @ [y]) = 10 * int_of_digits (xs @ ys) + digit_val y"
    using int_of_digits_snoc [of "xs @ ys" y] by simp
  then show ?case by (simp add: snoc.IH int_of_digits_snoc algebra_simps)
qed

lemma int_of_digits_zeros: "int_of_digits (replicate k (CHR ''0'')) = 0"
  by (induction k) (simp_all add: int_of_digits_Nil int_of_digits_def digit_val_def)

lemma is_digit_zero: "is_digit (CHR ''0'')"
  by (simp add: is_digit_def)

lemma int_of_digits_less: "list_all is_digit ds \<Longrightarrow> int_of_digits ds < 10 ^ length ds"
proof (induction ds rule: rev_induct)
  case Nil
  show ?case by (simp add: int_of_digits_Nil)
next
  case (snoc c ds)
  then have "int_of_digits ds < 10 ^ length ds" "digit_val c \<le> 9"
    using is_digit_not_special(7) [of c] by simp_all
  then show ?case by (simp add: int_of_digits_snoc)
qed

text \<open>The first \<open>j\<close> characters of a string of digits and the rest, as numbers.\<close>

lemma int_of_digits_take_drop:
  assumes "list_all is_digit s" "j \<le> length s"
  shows "int_of_digits (take j s) = int_of_digits s div 10 ^ (length s - j) \<and>
         int_of_digits (drop j s) = int_of_digits s mod 10 ^ (length s - j)"
proof -
  define a where "a = int_of_digits (take j s)"
  define d where "d = int_of_digits (drop j s)"
  define p :: int where "p = 10 ^ (length s - j)"
  have dd: "list_all is_digit (drop j s)"
    using assms(1) by (simp add: list_all_iff in_set_dropD)
  have l: "length (drop j s) = length s - j" by simp
  have "int_of_digits (take j s @ drop j s) = a * p + d"
    unfolding a_def d_def p_def l [symmetric] by (rule int_of_digits_append)
  then have v: "int_of_digits s = a * p + d" by simp
  have b0: "0 \<le> d"
    unfolding d_def by (rule int_of_digits_nonneg [OF dd])
  have b1: "d < p"
    using int_of_digits_less [OF dd] unfolding d_def p_def l by assumption
  note b = b0 b1
  have p0: "p \<noteq> 0" using b by arith
  have "(a * p + d) div p = a + d div p" using p0 by (rule div_mult_self3)
  moreover have "d div p = 0" using b by (rule div_pos_pos_trivial)
  moreover have "(a * p + d) mod p = d mod p" by (rule mod_mult_self3)
  moreover have "d mod p = d" using b by (rule mod_pos_pos_trivial)
  ultimately have "int_of_digits s div p = a \<and> int_of_digits s mod p = d"
    unfolding v by simp
  then show ?thesis unfolding a_def d_def p_def by simp
qed

lemma zfill_digits:
  assumes "list_all is_digit ds" "ds \<noteq> []"
  shows "zfill w ds = replicate (w - length ds) (CHR ''0'') @ ds"
proof (cases ds)
  case Nil
  with assms show ?thesis by simp
next
  case (Cons c r)
  with assms have "c \<noteq> CHR ''+''" "c \<noteq> CHR ''-''"
    using is_digit_not_special(3,4) [of c] by simp_all
  with Cons show ?thesis by (simp add: zfill_def)
qed

lemma zfill_digits_props:
  assumes "list_all is_digit ds" "ds \<noteq> []"
  shows "list_all is_digit (zfill w ds)" "int_of_digits (zfill w ds) = int_of_digits ds"
    "length (zfill w ds) = max w (length ds)"
  using assms
  by (auto simp: zfill_digits is_digit_zero list_all_iff int_of_digits_append
      int_of_digits_zeros)

lemma list_all_take_drop:
  "list_all P z \<Longrightarrow> list_all P (take j z) \<and> list_all P (drop j z)"
  by (auto simp: list_all_iff dest: in_set_takeD in_set_dropD)

lemma take_drop_two_nonempty: "4 \<le> length z \<Longrightarrow> take 2 z \<noteq> [] \<and> drop 2 z \<noteq> []"
  by auto

lemma py_int_str_digits:
  assumes "list_all is_digit ds" "ds \<noteq> []"
  shows "py_int_str ds = Inr (int_of_digits ds)"
  by (simp add: py_int_str_def int_of_str_digits [OF assms])

lemma py_int_str_two:
  assumes "list_all is_digit z" "4 \<le> length z"
  shows "py_int_str (take 2 z) = Inr (int_of_digits z div 10 ^ (length z - 2))"
    and "py_int_str (drop 2 z) = Inr (int_of_digits z mod 10 ^ (length z - 2))"
proof -
  have k2: "2 \<le> length z" using assms(2) by arith
  note td = int_of_digits_take_drop [OF assms(1) k2]
  note dt = list_all_take_drop [OF assms(1), of 2]
  note ne = take_drop_two_nonempty [OF assms(2)]
  show "py_int_str (take 2 z) = Inr (int_of_digits z div 10 ^ (length z - 2))"
    using py_int_str_digits [OF conjunct1 [OF dt] conjunct1 [OF ne]]
    unfolding conjunct1 [OF td] by assumption
  show "py_int_str (drop 2 z) = Inr (int_of_digits z mod 10 ^ (length z - 2))"
    using py_int_str_digits [OF conjunct2 [OF dt] conjunct2 [OF ne]]
    unfolding conjunct2 [OF td] by assumption
qed

text \<open>The decoded minutes of a non-negative integer whose decimal string, padded to four
  characters, has \<open>k\<close> characters: the hour is the number of the first two, the minute the
  number of the other \<open>k - 2\<close>.\<close>

lemma hhmm_split_nonneg:
  assumes "0 \<le> n"
  shows "hhmm_split n =
     Inr (let k = max 4 (length (py_str_int n)); p = 10 ^ (k - 2)
          in if n div p > 23 \<or> n mod p > 59 then 0 else (n div p) * 60 + n mod p)"
proof -
  define z where "z = zfill 4 (digits_of n)"
  define p :: int where "p = 10 ^ (max 4 (length (digits_of n)) - 2)"
  have str: "py_str_int n = digits_of n" using assms by (simp add: py_str_int_def)
  note dd = digits_of_digits [OF assms]
  have v: "int_of_digits (digits_of n) = n" by (rule int_of_digits_digits_of [OF assms])
  note zp = zfill_digits_props [OF conjunct1 [OF dd] conjunct2 [OF dd], of 4]
  have zd: "list_all is_digit z" unfolding z_def by (rule zp(1))
  have zv: "int_of_digits z = n" unfolding z_def zp(2) by (rule v)
  have len: "length z = max 4 (length (digits_of n))" unfolding z_def by (rule zp(3))
  have k4: "4 \<le> length z" unfolding len by simp
  have h: "py_int_str (take 2 z) = Inr (n div p)"
    using py_int_str_two(1) [OF zd k4] unfolding zv len p_def by assumption
  have m: "py_int_str (drop 2 z) = Inr (n mod p)"
    using py_int_str_two(2) [OF zd k4] unfolding zv len p_def by assumption
  have p0: "0 < p" unfolding p_def by simp
  have nn: "\<not> n div p < 0" "\<not> n mod p < 0"
    using assms p0 by (simp_all add: pos_imp_zdiv_nonneg_iff not_less)
  have "hhmm_split n =
      (if n div p < 0 \<or> n div p > 23 \<or> n mod p < 0 \<or> n mod p > 59 then Inr 0
       else Inr (n div p * 60 + n mod p))"
    unfolding hhmm_split_def str z_def [symmetric] Let_def h m bindE_Inr by (rule refl)
  also have "\<dots> = Inr (if n div p > 23 \<or> n mod p > 59 then 0 else n div p * 60 + n mod p)"
    using nn by simp
  finally show ?thesis unfolding str Let_def p_def by assumption
qed

lemma digits_of_length_le:
  assumes "0 \<le> n" "n < 10 ^ j" "0 < j"
  shows "length (digits_of n) \<le> j"
proof -
  have ds: "list_all is_digit (digits_of n)" "digits_of n \<noteq> []"
    using digits_of_digits [OF assms(1)] by simp_all
  show ?thesis
    using assms
  proof (induction n arbitrary: j rule: digits_of.induct)
    case (1 n)
    show ?case
    proof (cases "n < 10")
      case True
      then show ?thesis using 1(4) by (subst digits_of.simps) simp
    next
      case False
      then have j: "1 < j" using 1(3,4) by (cases "j = 1") auto
      then obtain i where i: "j = Suc i" "0 < i" by (cases j) auto
      have "n < 10 * 10 ^ i" using 1(3) i by simp
      then have "n div 10 < 10 ^ i" by arith
      moreover have "0 \<le> n div 10" using 1(2) by simp
      ultimately have "length (digits_of (n div 10)) \<le> i"
        using 1(1) [OF False, of i] i by simp
      then show ?thesis using False i by (subst digits_of.simps) simp
    qed
  qed
qed

lemma hhmm_split_four_digits:
  assumes "0 \<le> n" "n \<le> 9999"
  shows "hhmm_split n =
     Inr (if n div 100 > 23 \<or> n mod 100 > 59 then 0 else (n div 100) * 60 + n mod 100)"
proof -
  have "length (digits_of n) \<le> 4"
    using digits_of_length_le [of n 4] assms by simp
  then have "max 4 (length (py_str_int n)) = 4"
    using assms by (simp add: py_str_int_def)
  then show ?thesis
    using hhmm_split_nonneg [OF assms(1)] by (simp add: Let_def)
qed
lemma digits_of_pos_hd:
  assumes "0 < m"
  shows "\<exists>c r. digits_of m = c # r \<and> is_digit c \<and> 1 \<le> digit_val c"
  using assms
proof (induction m rule: digits_of.induct)
  case (1 n)
  show ?case
  proof (cases "n < 10")
    case True
    with 1(2) have d: "1 \<le> n" "n \<le> 9" "0 \<le> n" by simp_all
    have "digits_of n = [digit_char n]" using True by (subst digits_of.simps) simp
    moreover have "is_digit (digit_char n)" "digit_val (digit_char n) = n"
      using digit_char_props [OF d(3) d(2)] by simp_all
    ultimately show ?thesis using d(1) by simp
  next
    case False
    then have "0 < n div 10" by simp
    from 1(1) [OF False this] obtain c r where
      "digits_of (n div 10) = c # r" "is_digit c" "1 \<le> digit_val c" by blast
    then show ?thesis using False by (subst digits_of.simps) simp
  qed
qed

lemma digits_of_length_gt:
  assumes "10 ^ j \<le> m"
  shows "j < length (digits_of m)"
  using assms
proof (induction m arbitrary: j rule: digits_of.induct)
  case (1 n)
  show ?case
  proof (cases "n < 10")
    case True
    have "j = 0"
    proof (rule ccontr)
      assume "j \<noteq> 0"
      then obtain i where "j = Suc i" by (cases j) auto
      with 1(2) have "10 * 10 ^ i \<le> n" by simp
      moreover have "(1::int) \<le> 10 ^ i" by simp
      ultimately show False using True by arith
    qed
    then show ?thesis using True by (subst digits_of.simps) simp
  next
    case False
    show ?thesis
    proof (cases j)
      case 0
      then show ?thesis using False by (subst digits_of.simps) simp
    next
      case (Suc i)
      with 1(2) have "10 * 10 ^ i \<le> n" by simp
      then have "10 ^ i \<le> n div 10" by arith
      from 1(1) [OF False this] show ?thesis using False Suc by (subst digits_of.simps) simp
    qed
  qed
qed

lemma py_int_str_minus_digit:
  assumes "is_digit c"
  shows "py_int_str [CHR ''-'', c] = Inr (- digit_val c)"
proof -
  note n = is_digit_not_special [OF assms]
  have s: "\<not> is_space (CHR ''-'')" by (simp add: is_space_def)
  have "strip [CHR ''-'', c] = [CHR ''-'', c]"
    using n(1) s by (simp add: strip_def)
  then show ?thesis
    using assms n(2)
    by (simp add: py_int_str_def int_of_str_def split_sign_def drop_underscores_def
        int_of_digits_def Let_def)
qed

lemma hhmm_split_neg_large:
  assumes "n \<le> - 100"
  shows "hhmm_split n = Inr 0"
proof -
  define ds where "ds = digits_of (- n)"
  have pos: "0 < - n" "0 \<le> - n" "10 ^ 2 \<le> - n" using assms by simp_all
  have str: "py_str_int n = CHR ''-'' # ds" using assms by (simp add: py_str_int_def ds_def)
  from digits_of_pos_hd [OF pos(1)] obtain c r where
    c: "ds = c # r" "is_digit c" "1 \<le> digit_val c" unfolding ds_def by blast
  have len: "2 < length ds" unfolding ds_def by (rule digits_of_length_gt [OF pos(3)])
  have dd: "list_all is_digit ds" unfolding ds_def using digits_of_digits [OF pos(2)] by simp
  have z: "zfill 4 (CHR ''-'' # ds) = CHR ''-'' # ds" using len by (simp add: zfill_def)
  have r: "list_all is_digit r" "r \<noteq> []" using dd len c(1) by auto
  have h: "py_int_str (take 2 (CHR ''-'' # c # r)) = Inr (- digit_val c)"
    using py_int_str_minus_digit [OF c(2)] by simp
  have m: "py_int_str (drop 2 (CHR ''-'' # c # r)) = Inr (int_of_digits r)"
    using py_int_str_digits [OF r] by simp
  show ?thesis
    unfolding hhmm_split_def str z Let_def unfolding c(1) h m bindE_Inr using c(3) by simp
qed

lemma hhmm_split_neg_small:
  assumes "- 99 \<le> n" "n < 0"
  shows "hhmm_split n = Inr (if - 59 \<le> n then - n else 0)"
proof -
  define ds where "ds = digits_of (- n)"
  have pos: "0 \<le> - n" "- n < 10 ^ 2" using assms by simp_all
  have str: "py_str_int n = CHR ''-'' # ds" using assms by (simp add: py_str_int_def ds_def)
  note dd = digits_of_digits [OF pos(1), folded ds_def]
  have v: "int_of_digits ds = - n" unfolding ds_def by (rule int_of_digits_digits_of [OF pos(1)])
  have "length ds \<le> 2" unfolding ds_def by (rule digits_of_length_le [OF pos]) simp
  moreover have "length ds \<noteq> 0" using dd by simp
  ultimately have len: "length ds = 1 \<or> length ds = 2" by arith
  define t where "t = replicate (2 - length ds) (CHR ''0'') @ ds"
  have z: "zfill 4 (CHR ''-'' # ds) = CHR ''-'' # CHR ''0'' # t"
    using len by (auto simp: zfill_def t_def numeral_eq_Suc)
  have td: "list_all is_digit t" "t \<noteq> []" "int_of_digits t = - n"
    using dd v by (auto simp: t_def is_digit_zero list_all_iff int_of_digits_append
        int_of_digits_zeros)
  have h: "py_int_str (take 2 (CHR ''-'' # CHR ''0'' # t)) = Inr 0"
    using py_int_str_minus_digit [OF is_digit_zero] by (simp add: digit_val_def)
  have m: "py_int_str (drop 2 (CHR ''-'' # CHR ''0'' # t)) = Inr (- n)"
    using py_int_str_digits [OF td(1,2)] td(3) by simp
  show ?thesis
    unfolding hhmm_split_def str z Let_def h m bindE_Inr using assms by simp
qed

lemma hhmm_split_neg:
  assumes "n < 0"
  shows "hhmm_split n = Inr (if - 59 \<le> n then - n else 0)"
proof (cases "n \<le> - 100")
  case True
  then show ?thesis using hhmm_split_neg_large [OF True] by simp
next
  case False
  then have "- 99 \<le> n" by simp
  from hhmm_split_neg_small [OF this assms] show ?thesis .
qed

lemma py_float_fin_guard:
  assumes "py_float v = Inr f" "py_int_float f = Inr n"
  shows "\<not> (isna v \<or> v = PyStr [] \<or> v = PyNone)"
  using assms
  by (auto simp: isna_def py_float_def py_int_float_def float_of_str_def strip_def)

lemma hhmm_split_returns: "\<exists>m. hhmm_split n = Inr m"
  using hhmm_split_nonneg [of n] hhmm_split_neg [of n] by (cases "0 \<le> n") auto

lemma hhmm_to_minutes_int:
  assumes "py_float v = Inr f" "py_int_float f = Inr n"
  shows "hhmm_to_minutes v = hhmm_split n"
proof -
  have t: "hhmm_try v = hhmm_split n"
    by (simp add: hhmm_try_def assms bindE_Inr)
  obtain m where m: "hhmm_split n = Inr m"
    using hhmm_split_returns by blast
  show ?thesis
    using py_float_fin_guard [OF assms] by (simp add: hhmm_to_minutes_def t m)
qed




subsection \<open>Decoding an encoded value\<close>

lemma bitlen_bounds:
  assumes "0 < n"
  shows "1 \<le> bitlen n \<and> 2 ^ nat (bitlen n - 1) \<le> n \<and> n < 2 ^ nat (bitlen n)"
  using assms
proof (induction n rule: bitlen.induct)
  case (1 n)
  have b: "bitlen n = 1 + bitlen (n div 2)" using 1(2) by (subst bitlen.simps) simp
  show ?case
  proof (cases "n div 2 = 0")
    case True
    then have "n = 1" using 1(2) by arith
    moreover have "bitlen (n div 2) = 0" using True by (subst bitlen.simps) simp
    ultimately show ?thesis using b by simp
  next
    case False
    then have p: "0 < n div 2" using 1(2) by arith
    have nle: "\<not> n \<le> 0" using 1(2) by simp
    define k where "k = nat (bitlen (n div 2) - 1)"
    from 1(1) [OF nle p] have ih: "1 \<le> bitlen (n div 2)" "2 ^ k \<le> n div 2" 
      "n div 2 < 2 ^ nat (bitlen (n div 2))" by (simp_all add: k_def)
    have k1: "nat (bitlen (n div 2)) = Suc k" using ih(1) by (simp add: k_def)
    have k2: "nat (bitlen n - 1) = Suc k" "nat (bitlen n) = Suc (Suc k)"
      using ih(1) by (simp_all add: b k_def)
    have "2 * 2 ^ k \<le> n" using ih(2) by arith
    moreover have "n < 2 * (2 * 2 ^ k)" using ih(3) unfolding k1 by simp
    ultimately show ?thesis using ih(1) unfolding k2 by (simp add: b)
  qed
qed

lemma round_half_even_of_int: "round_half_even (of_int z) = z"
  by (simp add: round_half_even_def)

lemma pow2_nonpos: "e \<le> 0 \<Longrightarrow> pow2 e = 1 / 2 ^ nat (- e)"
  by (cases "e = 0") (simp_all add: pow2_def)

text \<open>An integer below \<open>2 ^ 53\<close> is a float.\<close>

lemma round_double_of_int:
  assumes "0 \<le> n" "n < 2 ^ 53"
  shows "round_double (of_int n) = Fin (of_int n)"
proof (cases "n = 0")
  case True
  then show ?thesis by (simp add: round_double_def)
next
  case False
  then have pos: "0 < n" using assms(1) by simp
  note bb = bitlen_bounds [OF pos]
  define d where "d = bitlen n - 1"
  have d0: "0 \<le> d" using bb by (simp add: d_def)
  have lo: "(2::int) ^ nat d \<le> n" using bb by (simp add: d_def)
  have "nat d < 53"
  proof (rule power_less_imp_less_exp [of "2::int"])
    show "(1::int) < 2" by simp
    show "(2::int) ^ nat d < 2 ^ 53" using lo assms(2) by (rule le_less_trans)
  qed
  then have d52: "d \<le> 52" by simp
  have b1: "bitlen 1 = 1" by (subst bitlen.simps, subst bitlen.simps) simp
  have "(2::rat) ^ nat d \<le> of_int n"
  proof -
    have "(of_int ((2::int) ^ nat d) :: rat) \<le> of_int n" using lo by (simp only: of_int_le_iff)
    then show ?thesis by simp
  qed
  then have il: "ilog2 (of_int n) = d"
    using d0 by (simp add: ilog2_def quotient_of_int b1 d_def [symmetric] pow2_def Let_def)
  define k where "k = nat (52 - d)"
  have q: "pow2 (d - 52) = 1 / 2 ^ k"
    using pow2_nonpos [of "d - 52"] d52 by (simp add: k_def)
  have "of_int n / (1 / (2::rat) ^ k) = of_int (n * 2 ^ k)" by simp
  then have r: "round_half_even (of_int n / (1 / (2::rat) ^ k)) = n * 2 ^ k"
    by (simp only: round_half_even_of_int)
  have m: "(of_int (n * 2 ^ k) :: rat) * (1 / 2 ^ k) = of_int n" by simp
  have mx: "max d (- 1022) = d" using d0 by simp
  have abs: "\<bar>of_int n :: rat\<bar> = of_int n" using assms(1) by simp
  have nz: "(of_int n :: rat) \<noteq> 0" "\<not> (of_int n :: rat) < 0" using pos by simp_all
  show ?thesis
    unfolding round_double_def Let_def abs il mx q r m using nz d52 by simp
qed

lemma py_int_float_of_int: "py_int_float (Fin (of_int n)) = Inr n"
  by (simp add: py_int_float_def trunc_def)

lemma parse_decimal_digits:
  assumes "list_all is_digit ds" "ds \<noteq> []"
  shows "parse_decimal ds = Some (of_int (int_of_digits ds))"
proof -
  have "\<forall>c \<in> set ds. is_digit c" using assms(1) by (simp add: list_all_iff)
  then have t: "takeWhile is_digit ds = ds" "dropWhile is_digit ds = []" by simp_all
  show ?thesis
    using assms(2) by (simp add: parse_decimal_def t parse_exponent_def Let_def)
qed

lemma float_of_str_digits:
  assumes "list_all is_digit ds" "ds \<noteq> []"
  shows "float_of_str ds = Some (round_double (of_int (int_of_digits ds)))"
  using assms underscores_ok_digits [OF assms(1), of "CHR 0x00"]
  by (simp add: float_of_str_def strip_digits drop_underscores_digits split_sign_digits
      parse_decimal_digits Let_def)

lemma hhmm_to_minutes_digits:
  assumes "list_all is_digit ds" "ds \<noteq> []" "int_of_digits ds \<le> 9999"
  shows "hhmm_to_minutes (PyStr ds) =
     Inr (if int_of_digits ds div 100 > 23 \<or> int_of_digits ds mod 100 > 59 then 0
          else int_of_digits ds div 100 * 60 + int_of_digits ds mod 100)"
proof -
  define n where "n = int_of_digits ds"
  have n: "0 \<le> n" "n \<le> 9999" "n < 2 ^ 53"
    using int_of_digits_nonneg [OF assms(1)] assms(3) by (simp_all add: n_def)
  have f: "py_float (PyStr ds) = Inr (Fin (of_int n))"
    by (simp add: py_float_def float_of_str_digits [OF assms(1,2)] n_def [symmetric]
        round_double_of_int [OF n(1,3)])
  show ?thesis
    using hhmm_to_minutes_int [OF f py_int_float_of_int] hhmm_split_four_digits [OF n(1,2)]
    by (simp add: n_def)
qed

lemma fmt02d_props:
  assumes "0 \<le> k" "k \<le> 99"
  shows "list_all is_digit (fmt02d k)" "length (fmt02d k) = 2" "int_of_digits (fmt02d k) = k"
proof -
  have str: "py_str_int k = digits_of k" using assms by (simp add: py_str_int_def)
  note dd = digits_of_digits [OF assms(1)]
  note zp = zfill_digits_props [OF conjunct1 [OF dd] conjunct2 [OF dd], of 2]
  have "k < 10 ^ 2" using assms(2) by simp
  then have l: "length (digits_of k) \<le> 2" by (rule digits_of_length_le [OF assms(1)]) simp
  show "list_all is_digit (fmt02d k)" unfolding fmt02d_def str by (rule zp(1))
  show "length (fmt02d k) = 2" unfolding fmt02d_def str zp(3) using l by simp
  show "int_of_digits (fmt02d k) = k"
    unfolding fmt02d_def str zp(2) by (rule int_of_digits_digits_of [OF assms(1)])
qed

lemma minutes_to_hhmm_pos:
  assumes "0 < m"
  shows "minutes_to_hhmm (PyInt m) = Inr (fmt02d (m div 60 mod 24) @ fmt02d (m mod 60))"
proof -
  have le: "py_le (PyInt m) (PyInt 0) = Inr False"
    using assms by (simp add: py_le_def num_val_def)
  have h: "\<not> 24 \<le> m div 60 \<Longrightarrow> m div 60 mod 24 = m div 60"
    using assms by simp
  show ?thesis
    by (simp add: minutes_to_hhmm_def le bindE_Inr py_int_num_def Let_def h)
qed

lemma minutes_to_hhmm_zero: "minutes_to_hhmm (PyInt 0) = Inr ''0000''"
  by (simp add: minutes_to_hhmm_def py_le_def num_val_def bindE_Inr)

lemma hhmm_round_trip:
  assumes "0 \<le> h" "h \<le> 23" "0 \<le> mi" "mi \<le> 59"
  shows "hhmm_to_minutes (PyStr (fmt02d h @ fmt02d mi)) = Inr (h * 60 + mi)"
proof -
  have hh: "h \<le> 99" "mi \<le> 99" using assms by simp_all
  note fh = fmt02d_props [OF assms(1) hh(1)]
  note fm = fmt02d_props [OF assms(3) hh(2)]
  have d: "list_all is_digit (fmt02d h @ fmt02d mi)" using fh(1) fm(1) by simp
  have ne: "fmt02d h @ fmt02d mi \<noteq> []" using fh(2) by auto
  have v: "int_of_digits (fmt02d h @ fmt02d mi) = h * 100 + mi"
    by (simp add: int_of_digits_append fh fm)
  have le: "int_of_digits (fmt02d h @ fmt02d mi) \<le> 9999" using assms by (simp add: v)
  have dm: "(h * 100 + mi) div 100 = h" "(h * 100 + mi) mod 100 = mi"
    using assms by simp_all
  have "hhmm_to_minutes (PyStr (fmt02d h @ fmt02d mi)) =
      Inr (if h > 23 \<or> mi > 59 then 0 else h * 60 + mi)"
    using hhmm_to_minutes_digits [OF d ne le] unfolding v dm by assumption
  then show ?thesis using assms by simp
qed
lemma minutes_to_hhmm_nonpos: "m \<le> 0 \<Longrightarrow> minutes_to_hhmm (PyInt m) = Inr ''0000''"
  by (simp add: minutes_to_hhmm_def py_le_def num_val_def bindE_Inr)

lemma hhmm_to_minutes_0000: "hhmm_to_minutes (PyStr ''0000'') = Inr 0"
  by code_simp

lemma day_minutes: "(m::int) div 60 mod 24 * 60 + m mod 60 = m mod 1440"
  using zmod_zmult2_eq [of 24 m 60] by simp

text \<open>
  Claim C6. For every integer \<open>m \<ge> 0\<close>, \<^verbatim>\<open>hhmm_to_minutes(minutes_to_hhmm(m))\<close> is
  \<open>m mod 1440\<close>: \<^verbatim>\<open>minutes_to_hhmm\<close> returns \<^verbatim>\<open>0000\<close> for a non-positive \<open>m\<close> and
  otherwise the two digits of the hour \<open>m div 60\<close> taken modulo 24 followed by the two
  digits of the minute \<open>m mod 60\<close>, and \<^verbatim>\<open>hhmm_to_minutes\<close> reads both back.
\<close>

theorem decode_encode_wraps:
  "(0 \<le> m \<longrightarrow>
      bindE (minutes_to_hhmm (PyInt m)) (\<lambda>s. hhmm_to_minutes (PyStr s)) = Inr (m mod 1440)) \<and>
   (m \<le> 0 \<longrightarrow> minutes_to_hhmm (PyInt m) = Inr ''0000'') \<and>
   (0 < m \<longrightarrow>
      minutes_to_hhmm (PyInt m) = Inr (fmt02d (m div 60 mod 24) @ fmt02d (m mod 60)))"
proof -
  have a: "0 \<le> m \<longrightarrow>
      bindE (minutes_to_hhmm (PyInt m)) (\<lambda>s. hhmm_to_minutes (PyStr s)) = Inr (m mod 1440)"
  proof
    assume m: "0 \<le> m"
    show "bindE (minutes_to_hhmm (PyInt m)) (\<lambda>s. hhmm_to_minutes (PyStr s)) = Inr (m mod 1440)"
    proof (cases "m = 0")
      case True
      then show ?thesis
        by (simp add: minutes_to_hhmm_nonpos bindE_Inr hhmm_to_minutes_0000)
    next
      case False
      then have pos: "0 < m" using m by simp
      have b: "0 \<le> m div 60 mod 24" "m div 60 mod 24 \<le> 23" "0 \<le> m mod 60" "m mod 60 \<le> 59"
        by simp_all
      show ?thesis
        unfolding minutes_to_hhmm_pos [OF pos] bindE_Inr hhmm_round_trip [OF b] day_minutes
        by (rule refl)
    qed
  qed
  have b: "m \<le> 0 \<longrightarrow> minutes_to_hhmm (PyInt m) = Inr ''0000''"
    using minutes_to_hhmm_nonpos [of m] by blast
  have c: "0 < m \<longrightarrow>
      minutes_to_hhmm (PyInt m) = Inr (fmt02d (m div 60 mod 24) @ fmt02d (m mod 60))"
    using minutes_to_hhmm_pos [of m] by blast
  show ?thesis using a b c by (intro conjI) assumption+
qed

theorem decode_encode_wraps_witness:
  "minutes_to_hhmm (PyInt 1500) = Inr ''0100'' \<and>
   bindE (minutes_to_hhmm (PyInt 1500)) (\<lambda>s. hhmm_to_minutes (PyStr s)) = Inr 60 \<and>
   minutes_to_hhmm (PyInt 0) = Inr ''0000'' \<and>
   bindE (minutes_to_hhmm (PyInt 0)) (\<lambda>s. hhmm_to_minutes (PyStr s)) = Inr 0"
proof -
  have f: "fmt02d 1 = ''01''" "fmt02d 0 = ''00''" by code_simp+
  have 1: "minutes_to_hhmm (PyInt 1500) = Inr ''0100''"
    using decode_encode_wraps [where m = 1500] by (simp add: f)
  have 2: "bindE (minutes_to_hhmm (PyInt 1500)) (\<lambda>s. hhmm_to_minutes (PyStr s)) = Inr 60"
    using decode_encode_wraps [where m = 1500, THEN conjunct1] by simp
  have 3: "minutes_to_hhmm (PyInt 0) = Inr ''0000''"
    using decode_encode_wraps [where m = 0] by simp
  have 4: "bindE (minutes_to_hhmm (PyInt 0)) (\<lambda>s. hhmm_to_minutes (PyStr s)) = Inr 0"
    using decode_encode_wraps [where m = 0, THEN conjunct1] by simp
  show ?thesis using 1 2 3 4 by (intro conjI) assumption+
qed

end
